theory Spec2Isabelle
  imports Main
begin

section \<open>Python values and the operations the skill applies to them\<close>

text \<open>
  The skill is dynamically typed glue code: every value it handles is \<open>None\<close>, a string,
  a list or a dictionary with string keys. A dictionary is an association list; lookup
  takes the first binding of a key and assignment replaces it in place.
\<close>

datatype pyval =
    VNone
  | VStr string
  | VList "pyval list"
  | VDict "(string \<times> pyval) list"

text \<open>
  Exceptions are values. \<open>Upstream\<close> is any exception raised inside an external
  collaborator (network error, malformed response, translation failure); the others are
  the ones Python itself raises for the operations below.
\<close>

datatype exn = TypeError | AttributeError | KeyError | IndexError | Upstream string

fun truthy :: "pyval \<Rightarrow> bool" where
  "truthy VNone = False"
| "truthy (VStr s) = (s \<noteq> [])"
| "truthy (VList xs) = (xs \<noteq> [])"
| "truthy (VDict d) = (d \<noteq> [])"

definition py_or :: "pyval \<Rightarrow> pyval \<Rightarrow> pyval" where
  "py_or a b = (if truthy a then a else b)"

fun dict_set :: "(string \<times> pyval) list \<Rightarrow> string \<Rightarrow> pyval \<Rightarrow> (string \<times> pyval) list" where
  "dict_set [] k v = [(k, v)]"
| "dict_set ((k', v') # d) k v = (if k' = k then (k, v) # d else (k', v') # dict_set d k v)"

fun dict_update :: "(string \<times> pyval) list \<Rightarrow> (string \<times> pyval) list \<Rightarrow> (string \<times> pyval) list" where
  "dict_update d [] = d"
| "dict_update d ((k, v) # e) = dict_update (dict_set d k v) e"

text \<open>\<open>x.get(k, default)\<close>: only a dictionary has the method.\<close>

fun py_get :: "pyval \<Rightarrow> string \<Rightarrow> pyval \<Rightarrow> exn + pyval" where
  "py_get (VDict d) k dflt = Inr (case map_of d k of Some v \<Rightarrow> v | None \<Rightarrow> dflt)"
| "py_get _ k dflt = Inl AttributeError"

text \<open>\<open>x[k]\<close> with a string key.\<close>

fun py_item :: "pyval \<Rightarrow> string \<Rightarrow> exn + pyval" where
  "py_item (VDict d) k = (case map_of d k of Some v \<Rightarrow> Inr v | None \<Rightarrow> Inl KeyError)"
| "py_item _ k = Inl TypeError"

text \<open>\<open>x[k] = v\<close> with a string key, returning the updated object.\<close>

fun py_setitem :: "pyval \<Rightarrow> string \<Rightarrow> pyval \<Rightarrow> exn + pyval" where
  "py_setitem (VDict d) k v = Inr (VDict (dict_set d k v))"
| "py_setitem _ k v = Inl TypeError"

text \<open>\<open>x.update(data)\<close>, returning the updated object.\<close>

fun py_update :: "pyval \<Rightarrow> (string \<times> pyval) list \<Rightarrow> exn + pyval" where
  "py_update (VDict d) e = Inr (VDict (dict_update d e))"
| "py_update _ e = Inl AttributeError"

text \<open>\<open>len(x)\<close>.\<close>

fun py_len :: "pyval \<Rightarrow> exn + int" where
  "py_len VNone = Inl TypeError"
| "py_len (VStr s) = Inr (int (length s))"
| "py_len (VList xs) = Inr (int (length xs))"
| "py_len (VDict d) = Inr (int (length d))"

text \<open>
  Subscripting \<open>x[i]\<close> by an integer. Python accepts \<open>i\<close> from \<open>-len(x)\<close> up to
  \<open>len(x) - 1\<close>, reading \<open>x[len(x) + i]\<close> for the negative ones, and raises
  \<open>IndexError\<close> outside. The dictionaries here have string keys only, so an integer
  key is never found.
\<close>

definition list_index :: "'a list \<Rightarrow> int \<Rightarrow> exn + 'a" where
  "list_index xs i =
     (if 0 \<le> i \<and> i < int (length xs) then Inr (xs ! nat i)
      else if i < 0 \<and> - int (length xs) \<le> i then Inr (xs ! nat (int (length xs) + i))
      else Inl IndexError)"

fun py_index :: "pyval \<Rightarrow> int \<Rightarrow> exn + pyval" where
  "py_index VNone i = Inl TypeError"
| "py_index (VStr s) i = (case list_index s i of Inl e \<Rightarrow> Inl e | Inr c \<Rightarrow> Inr (VStr [c]))"
| "py_index (VList xs) i = list_index xs i"
| "py_index (VDict d) i = Inl KeyError"

text \<open>\<open>for x in v\<close>: the elements the loop visits.\<close>

fun py_iter :: "pyval \<Rightarrow> exn + pyval list" where
  "py_iter VNone = Inl TypeError"
| "py_iter (VStr s) = Inr (map (\<lambda>c. VStr [c]) s)"
| "py_iter (VList xs) = Inr xs"
| "py_iter (VDict d) = Inr (map (\<lambda>kv. VStr (fst kv)) d)"

text \<open>\<open>s.split(sep)\<close> for a one-character separator: never the empty list.\<close>

fun split_on :: "char \<Rightarrow> string \<Rightarrow> string list" where
  "split_on c [] = [[]]"
| "split_on c (x # xs) =
     (if x = c then [] # split_on c xs
      else (case split_on c xs of [] \<Rightarrow> [[x]] | w # ws \<Rightarrow> (x # w) # ws))"

fun py_split :: "pyval \<Rightarrow> char \<Rightarrow> exn + string list" where
  "py_split (VStr s) c = Inr (split_on c s)"
| "py_split _ c = Inl AttributeError"

text \<open>
  \<open>s.title()\<close>: a cased character that follows a cased character is lowered, any
  other cased character is raised to title case, everything else is kept. On ASCII text
  the cased characters are the letters and the result is computed here. Which characters
  outside ASCII are cased, and their mappings, come from Unicode's tables, which belong to
  the Python runtime: for a text with a character outside ASCII the result is a parameter
  \<open>U\<close>.
\<close>

definition is_ascii :: "char \<Rightarrow> bool" where
  "is_ascii c = ((of_char c :: nat) < 128)"

definition is_upper :: "char \<Rightarrow> bool" where
  "is_upper c = (65 \<le> (of_char c :: nat) \<and> (of_char c :: nat) \<le> 90)"

definition is_lower :: "char \<Rightarrow> bool" where
  "is_lower c = (97 \<le> (of_char c :: nat) \<and> (of_char c :: nat) \<le> 122)"

definition to_upper :: "char \<Rightarrow> char" where
  "to_upper c = (if is_lower c then char_of ((of_char c :: nat) - 32) else c)"

definition to_lower :: "char \<Rightarrow> char" where
  "to_lower c = (if is_upper c then char_of ((of_char c :: nat) + 32) else c)"

fun title_from :: "bool \<Rightarrow> string \<Rightarrow> string" where
  "title_from prev [] = []"
| "title_from prev (c # cs) =
     (if is_upper c \<or> is_lower c
      then (if prev then to_lower c else to_upper c) # title_from True cs
      else c # title_from False cs)"

definition str_title :: "(string \<Rightarrow> string) \<Rightarrow> string \<Rightarrow> string" where
  "str_title U s = (if list_all is_ascii s then title_from False s else U s)"

fun py_title :: "(string \<Rightarrow> string) \<Rightarrow> pyval \<Rightarrow> exn + pyval" where
  "py_title U (VStr s) = Inr (VStr (str_title U s))"
| "py_title U _ = Inl AttributeError"


section \<open>External collaborators\<close>

text \<open>
  The Wikipedia library, the template matcher, the keyword extractor and the solver
  base class are not part of the repository. Each of their entry points is a parameter
  that returns a value or raises. A computation of the solver carries the sequence of
  external calls it has made, so that which fetches happen, in which order and with
  which language is a property of the model.
\<close>

datatype call =
    Call_page_data pyval string
  | Call_tldr pyval string
  | Call_summary pyval string
  | Call_tldr_about pyval pyval string
  | Call_ask_about pyval pyval string
  | Call_match string pyval
  | Call_extract_subject pyval string
  | Call_sentence_split pyval int
  | Call_search pyval pyval
  | Call_base_init pyval

record solver =
  default_lang :: pyval
  cache :: "(string \<times> pyval) list"

record env =
  wiki_page_data :: "pyval \<Rightarrow> string \<Rightarrow> exn + pyval"
  wiki_tldr :: "pyval \<Rightarrow> string \<Rightarrow> exn + pyval"
  wiki_summary :: "pyval \<Rightarrow> string \<Rightarrow> exn + pyval"
  wiki_tldr_about :: "pyval \<Rightarrow> pyval \<Rightarrow> string \<Rightarrow> exn + pyval"
  wiki_ask_about :: "pyval \<Rightarrow> pyval \<Rightarrow> string \<Rightarrow> exn + pyval"
  simplematch_match :: "string \<Rightarrow> pyval \<Rightarrow> exn + pyval"
  extract_subject :: "pyval \<Rightarrow> string \<Rightarrow> exn + pyval"
  base_sentence_split :: "pyval \<Rightarrow> int \<Rightarrow> exn + pyval"
  base_search :: "pyval \<Rightarrow> pyval \<Rightarrow> exn + pyval"
  base_long_answer :: "pyval \<Rightarrow> string \<Rightarrow> exn + pyval"
  base_init :: "pyval \<Rightarrow> exn + solver"
  can_use_gui :: bool

type_synonym 'a comp = "call list \<times> (exn + 'a)"

definition ret :: "'a \<Rightarrow> 'a comp" where
  "ret x = ([], Inr x)"

definition lift :: "exn + 'a \<Rightarrow> 'a comp" where
  "lift r = ([], r)"

definition ext :: "call \<Rightarrow> exn + 'a \<Rightarrow> 'a comp" where
  "ext c r = ([c], r)"

definition bnd :: "'a comp \<Rightarrow> ('a \<Rightarrow> 'b comp) \<Rightarrow> 'b comp" where
  "bnd m f =
     (case m of
        (tr, Inl e) \<Rightarrow> (tr, Inl e)
      | (tr, Inr x) \<Rightarrow> (case f x of (tr', r) \<Rightarrow> (tr @ tr', r)))"

section \<open>WikipediaSolver\<close>

text \<open>
  \<open>__init__\<close>: the language entry of the configuration is overwritten before the base
  class sees it; the cache is cleared afterwards.
\<close>

definition WikipediaSolver_init :: "env \<Rightarrow> pyval \<Rightarrow> solver comp" where
  "WikipediaSolver_init E config =
     (let config = py_or config (VDict []) in
      bnd (lift (py_setitem config ''lang'' (VStr ''en''))) (\<lambda>config.
      bnd (ext (Call_base_init config) (base_init E config)) (\<lambda>self.
      ret (self\<lparr>cache := []\<rparr>))))"

definition extract_keyword :: "env \<Rightarrow> pyval \<Rightarrow> string \<Rightarrow> pyval comp" where
  "extract_keyword E query lang =
     ext (Call_extract_subject query lang) (extract_subject E query lang)"

definition get_secondary_search :: "env \<Rightarrow> pyval \<Rightarrow> string \<Rightarrow> (pyval \<times> pyval) comp" where
  "get_secondary_search E query lang =
     bnd (if lang = ''en'' then
            bnd (ext (Call_match ''what is the {subquery} of {query}'' query)
                   (simplematch_match E ''what is the {subquery} of {query}'' query)) (\<lambda>m.
            if truthy m then
              bnd (lift (py_item m ''query'')) (\<lambda>q.
              bnd (lift (py_item m ''subquery'')) (\<lambda>sq.
              ret (Some (q, sq))))
            else ret None)
          else ret None) (\<lambda>matched.
     case matched of
       Some r \<Rightarrow> ret r
     | None \<Rightarrow> bnd (extract_keyword E query lang) (\<lambda>query. ret (query, VNone)))"

text \<open>
  The two lines both \<open>extract_and_search\<close> and \<open>get_data\<close> start with, after
  \<open>context = context or {}\<close>:
  \<open>lang = context.get("lang") or self.default_lang; lang = lang.split("-")[0]\<close>.
\<close>

definition request_lang :: "solver \<Rightarrow> pyval \<Rightarrow> exn + string" where
  "request_lang self ctx =
     (case py_get ctx ''lang'' VNone of
        Inl e \<Rightarrow> Inl e
      | Inr l \<Rightarrow>
          (case py_split (py_or l (default_lang self)) CHR ''-'' of
             Inl e \<Rightarrow> Inl e
           | Inr ws \<Rightarrow> (case ws of [] \<Rightarrow> Inl IndexError | w # _ \<Rightarrow> Inr w)))"

definition extract_and_search :: "env \<Rightarrow> solver \<Rightarrow> pyval \<Rightarrow> pyval \<Rightarrow> pyval comp" where
  "extract_and_search E self query ctx0 =
     (let ctx = py_or ctx0 (VDict []) in
      bnd (lift (request_lang self ctx)) (\<lambda>lang.
      bnd (extract_keyword E query lang) (\<lambda>query.
      if \<not> truthy query then ret (VDict [])
      else ext (Call_search query ctx) (base_search E query ctx))))"

definition get_data :: "env \<Rightarrow> solver \<Rightarrow> pyval \<Rightarrow> pyval \<Rightarrow> pyval comp" where
  "get_data E self query ctx0 =
     (let ctx = py_or ctx0 (VDict []) in
      bnd (lift (request_lang self ctx)) (\<lambda>lang.
      bnd (ext (Call_page_data query lang) (wiki_page_data E query lang)) (\<lambda>pd.
      let page_data = py_or pd (VDict []) in
      bnd (ext (Call_tldr query lang) (wiki_tldr E query lang)) (\<lambda>sa.
      bnd (ext (Call_summary query lang) (wiki_summary E query lang)) (\<lambda>su.
      bnd (if \<not> truthy page_data then
             bnd (get_secondary_search E query lang) (\<lambda>(query, subquery).
             if truthy subquery then
               bnd (ext (Call_tldr_about subquery query lang)
                      (wiki_tldr_about E subquery query lang)) (\<lambda>sa.
               bnd (ext (Call_ask_about subquery query lang)
                      (wiki_ask_about E subquery query lang)) (\<lambda>su.
               ret (query, [(''short_answer'', sa), (''summary'', su)])))
             else
               bnd (ext (Call_tldr query lang) (wiki_tldr E query lang)) (\<lambda>sa.
               bnd (ext (Call_summary query lang) (wiki_summary E query lang)) (\<lambda>su.
               ret (query, [(''short_answer'', sa), (''summary'', su)]))))
           else ret (query, [(''short_answer'', sa), (''summary'', su)])) (\<lambda>(query, data).
      bnd (lift (py_update page_data data)) (\<lambda>page_data.
      bnd (lift (py_get page_data ''title'' VNone)) (\<lambda>t.
      lift (py_setitem page_data ''title'' (py_or t query))))))))))"

definition get_spoken_answer :: "env \<Rightarrow> solver \<Rightarrow> pyval \<Rightarrow> pyval \<Rightarrow> pyval comp" where
  "get_spoken_answer E self query ctx0 =
     bnd (extract_and_search E self query ctx0) (\<lambda>data.
     lift (py_get data ''summary'' (VStr [])))"

text \<open>\<open>get_image\<close>: the bare \<open>except\<close> covers the two subscripts only.\<close>

definition get_image :: "env \<Rightarrow> solver \<Rightarrow> pyval \<Rightarrow> pyval \<Rightarrow> pyval comp" where
  "get_image E self query ctx0 =
     bnd (extract_and_search E self query ctx0) (\<lambda>data.
     ret (case py_item data ''images'' of
            Inl e \<Rightarrow> VNone
          | Inr imgs \<Rightarrow> (case py_index imgs 0 of Inl e \<Rightarrow> VNone | Inr img \<Rightarrow> img)))"

text \<open>
  One list comprehension of \<open>get_expanded_answer\<close>: a step per sentence. The title
  expression is evaluated once per sentence, so it can only raise when there is one.
\<close>

fun steps_for :: "(string \<Rightarrow> string) \<Rightarrow> pyval \<Rightarrow> pyval \<Rightarrow> pyval \<Rightarrow> pyval list \<Rightarrow> exn + pyval list" where
  "steps_for U d query img [] = Inr []"
| "steps_for U d query img (s # ss) =
     (case py_get d ''title'' query of
        Inl e \<Rightarrow> Inl e
      | Inr t \<Rightarrow>
          (case py_title U t of
             Inl e \<Rightarrow> Inl e
           | Inr t' \<Rightarrow>
               (case steps_for U d query img ss of
                  Inl e \<Rightarrow> Inl e
                | Inr r \<Rightarrow> Inr (VDict [(''title'', t'), (''summary'', s), (''img'', img)] # r))))"

text \<open>The loop over the sections, \<open>steps\<close> being the list built so far.\<close>

fun section_steps ::
  "(string \<Rightarrow> string) \<Rightarrow> env \<Rightarrow> pyval \<Rightarrow> pyval \<Rightarrow> pyval list \<Rightarrow> pyval list \<Rightarrow> pyval list comp" where
  "section_steps U E query img [] steps = ret steps"
| "section_steps U E query img (sec # secs) steps =
     bnd (lift (py_item sec ''text'')) (\<lambda>txt.
     bnd (ext (Call_sentence_split txt (- 1)) (base_sentence_split E txt (- 1))) (\<lambda>ss.
     bnd (lift (py_iter ss)) (\<lambda>sents.
     bnd (lift (steps_for U sec query img sents)) (\<lambda>new.
     section_steps U E query img secs (steps @ new)))))"

text \<open>The body of \<open>get_expanded_answer\<close> once \<open>data\<close> and \<open>img\<close> are fetched.\<close>

definition expand_steps ::
  "(string \<Rightarrow> string) \<Rightarrow> env \<Rightarrow> pyval \<Rightarrow> pyval \<Rightarrow> pyval \<Rightarrow> pyval comp" where
  "expand_steps U E query data img =
     bnd (lift (py_item data ''summary'')) (\<lambda>su.
     bnd (ext (Call_sentence_split su (- 1)) (base_sentence_split E su (- 1))) (\<lambda>ss.
     bnd (lift (py_iter ss)) (\<lambda>sents.
     bnd (lift (steps_for U data query img sents)) (\<lambda>steps.
     bnd (lift (py_get data ''sections'' (VList []))) (\<lambda>secs.
     bnd (lift (py_iter secs)) (\<lambda>secl.
     bnd (section_steps U E query img secl steps) (\<lambda>steps.
     ret (VList steps))))))))"

definition get_expanded_answer ::
  "(string \<Rightarrow> string) \<Rightarrow> env \<Rightarrow> solver \<Rightarrow> pyval \<Rightarrow> pyval \<Rightarrow> pyval comp" where
  "get_expanded_answer U E self query ctx0 =
     bnd (get_data E self query ctx0) (\<lambda>data.
     bnd (get_image E self query ctx0) (\<lambda>img.
     expand_steps U E query data img))"


section \<open>WikipediaSkill\<close>

text \<open>
  The facade owns the pagination state (\<open>idx\<close>, \<open>results\<close>, the image). What it asks
  of the host is recorded: the spoken lines, dialogs, pictures and log entries in
  \<open>out\<close>, the conversational context markers in \<open>contexts\<close>. The host's own
  operations (speaking, showing, setting a marker, logging) are taken to return. A
  handler returns the state it leaves behind together with its result or the exception
  that escapes it.
\<close>

datatype CQSMatchLevel = EXACT | CATEGORY | GENERAL

datatype host_event =
    Speak pyval
  | Speak_dialog string "(string \<times> pyval) list"
  | Show_animated_image string
  | Show_image pyval pyval
  | Log_error exn
  | Gui_release

record skill =
  wiki :: solver
  self_lang :: string
  idx :: int
  results :: pyval
  image_ref :: pyval
  current_title :: pyval
  contexts :: "(string \<times> pyval) list"
  out :: "host_event list"

type_synonym 'a act = "skill \<Rightarrow> skill \<times> (exn + 'a)"

definition sret :: "'a \<Rightarrow> 'a act" where
  "sret x s = (s, Inr x)"

definition slift :: "exn + 'a \<Rightarrow> 'a act" where
  "slift r s = (s, r)"

definition sget :: "(skill \<Rightarrow> 'a) \<Rightarrow> 'a act" where
  "sget f s = (s, Inr (f s))"

definition upd :: "(skill \<Rightarrow> skill) \<Rightarrow> unit act" where
  "upd f s = (f s, Inr ())"

definition sbind :: "'a act \<Rightarrow> ('a \<Rightarrow> 'b act) \<Rightarrow> 'b act" where
  "sbind m f s = (case m s of (s', Inl e) \<Rightarrow> (s', Inl e) | (s', Inr x) \<Rightarrow> f x s')"

definition try_except :: "'a act \<Rightarrow> (exn \<Rightarrow> 'a act) \<Rightarrow> 'a act" where
  "try_except m h s = (case m s of (s', Inl e) \<Rightarrow> h e s' | (s', Inr x) \<Rightarrow> (s', Inr x))"

definition emit :: "host_event \<Rightarrow> unit act" where
  "emit x = upd (\<lambda>s. s\<lparr>out := out s @ [x]\<rparr>)"

definition speak :: "pyval \<Rightarrow> unit act" where
  "speak v = emit (Speak v)"

definition speak_dialog :: "string \<Rightarrow> (string \<times> pyval) list \<Rightarrow> unit act" where
  "speak_dialog name data = emit (Speak_dialog name data)"

definition set_context :: "string \<Rightarrow> pyval \<Rightarrow> unit act" where
  "set_context k v = upd (\<lambda>s. s\<lparr>contexts := dict_set (contexts s) k v\<rparr>)"

definition remove_context :: "string \<Rightarrow> unit act" where
  "remove_context k = upd (\<lambda>s. s\<lparr>contexts := filter (\<lambda>kv. fst kv \<noteq> k) (contexts s)\<rparr>)"

text \<open>\<open>__init__\<close>, given the host's settings and locale tag.\<close>

definition WikipediaSkill_init :: "env \<Rightarrow> (string \<times> pyval) list \<Rightarrow> string \<Rightarrow> skill comp" where
  "WikipediaSkill_init E settings tag =
     bnd (case map_of settings ''lang'' of
            Some l \<Rightarrow> ret l
          | None \<Rightarrow> (case split_on CHR ''-'' tag of
                       [] \<Rightarrow> lift (Inl IndexError)
                     | w # _ \<Rightarrow> ret (VStr w))) (\<lambda>l.
     bnd (WikipediaSolver_init E (VDict [(''lang'', l)])) (\<lambda>w.
     ret \<lparr>wiki = w, self_lang = tag, idx = 0, results = VList [], image_ref = VNone,
          current_title = VNone, contexts = [], out = []\<rparr>))"

definition display_wiki_entry :: "env \<Rightarrow> pyval \<Rightarrow> pyval \<Rightarrow> unit act" where
  "display_wiki_entry E title img =
     (if \<not> can_use_gui E then sret ()
      else sbind (sget image_ref) (\<lambda>own.
           let img = py_or img own in
           if truthy img then emit (Show_image img title) else sret ()))"

definition ask_the_wiki :: "env \<Rightarrow> pyval \<Rightarrow> (pyval \<times> pyval) act" where
  "ask_the_wiki E query =
     sbind (set_context ''WikiKnows'' query) (\<lambda>_.
     sbind (upd (\<lambda>s. s\<lparr>idx := 0\<rparr>)) (\<lambda>_.
     sbind (try_except
              (sbind (sget self_lang) (\<lambda>l.
               sbind (slift (base_long_answer E query l)) (\<lambda>r.
               upd (\<lambda>s. s\<lparr>results := r\<rparr>))))
              (\<lambda>err.
               sbind (emit (Log_error err)) (\<lambda>_.
               upd (\<lambda>s. s\<lparr>results := VNone\<rparr>)))) (\<lambda>_.
     sbind (sget wiki) (\<lambda>w.
     sbind (slift (snd (get_image E w query VNone))) (\<lambda>img.
     sbind (upd (\<lambda>s. s\<lparr>image_ref := img\<rparr>)) (\<lambda>_.
     sbind (sget results) (\<lambda>rs.
     if truthy rs then
       sbind (slift (py_index rs 0)) (\<lambda>r0.
       sbind (slift (py_get r0 ''title'' VNone)) (\<lambda>t.
       sbind (slift (py_item r0 ''summary'')) (\<lambda>sm.
       sret (py_or t query, sm))))
     else sret (VNone, VNone))))))))"

definition speak_result :: "env \<Rightarrow> unit act" where
  "speak_result E =
     sbind (sget idx) (\<lambda>i.
     sbind (sget results) (\<lambda>rs.
     sbind (slift (py_len rs)) (\<lambda>n.
     if i + 1 > n then
       sbind (speak_dialog ''thats all'' []) (\<lambda>_.
       sbind (remove_context ''WikiKnows'') (\<lambda>_.
       upd (\<lambda>s. s\<lparr>idx := 0\<rparr>)))
     else
       sbind (slift (py_index rs i)) (\<lambda>chunk.
       sbind (slift (py_item chunk ''summary'')) (\<lambda>sm.
       sbind (speak sm) (\<lambda>_.
       sbind (set_context ''WikiKnows'' (VStr ''wikipedia'')) (\<lambda>_.
       sbind (slift (py_get chunk ''title'' (VStr ''Wikipedia''))) (\<lambda>t.
       sbind (display_wiki_entry E t VNone) (\<lambda>_.
       upd (\<lambda>s. s\<lparr>idx := idx s + 1\<rparr>))))))))))"

text \<open>\<open>handle_search\<close>; \<open>message\<close> stands for \<open>message.data\<close>.\<close>

definition handle_search :: "env \<Rightarrow> pyval \<Rightarrow> unit act" where
  "handle_search E message =
     sbind (emit (Show_animated_image ''ui/jumping.gif'')) (\<lambda>_.
     sbind (slift (py_item message ''query'')) (\<lambda>query.
     sbind (upd (\<lambda>s. s\<lparr>current_title := query\<rparr>)) (\<lambda>_.
     sbind (speak_dialog ''searching'' [(''query'', query)]) (\<lambda>_.
     sbind (upd (\<lambda>s. s\<lparr>image_ref := VNone\<rparr>)) (\<lambda>_.
     sbind (ask_the_wiki E query) (\<lambda>(title, summary).
     if truthy summary then speak_result E
     else speak_dialog ''no_answer'' []))))))"

definition handle_wiki_roulette_query :: "env \<Rightarrow> pyval \<Rightarrow> unit act" where
  "handle_wiki_roulette_query E message =
     sbind (emit (Show_animated_image ''ui/jumping.gif'')) (\<lambda>_.
     sbind (upd (\<lambda>s. s\<lparr>image_ref := VNone\<rparr>)) (\<lambda>_.
     sbind (upd (\<lambda>s. s\<lparr>current_title := VStr ''Wiki Roulette''\<rparr>)) (\<lambda>_.
     speak_dialog ''wikiroulette'' [])))"

definition handle_tell_more :: "env \<Rightarrow> pyval \<Rightarrow> unit act" where
  "handle_tell_more E message = speak_result E"

definition CQS_match_query_phrase ::
  "env \<Rightarrow> pyval \<Rightarrow> (pyval \<times> CQSMatchLevel \<times> pyval \<times> (string \<times> pyval) list) option act" where
  "CQS_match_query_phrase E phrase =
     sbind (ask_the_wiki E phrase) (\<lambda>(title, summary).
     if truthy summary then
       sbind (upd (\<lambda>s. s\<lparr>idx := idx s + 1\<rparr>)) (\<lambda>_.
       sbind (sget image_ref) (\<lambda>img.
       sret (Some (phrase, GENERAL, summary,
                   [(''query'', phrase), (''image'', img), (''title'', title),
                    (''answer'', summary)]))))
     else sret None)"

definition CQS_action :: "env \<Rightarrow> pyval \<Rightarrow> pyval \<Rightarrow> unit act" where
  "CQS_action E phrase data =
     sbind (display_wiki_entry E (VStr ''Wikipedia'') VNone) (\<lambda>_.
     sbind (slift (py_get data ''title'' VNone)) (\<lambda>t.
     set_context ''WikiKnows'' (py_or t phrase)))"

definition stop :: "unit act" where
  "stop = emit Gui_release"

text \<open>
  The states of a conversation: what a sequence of handler calls can leave behind,
  whatever the collaborators answer at each call and whether or not a handler raises.
\<close>

inductive reachable :: "skill \<Rightarrow> bool" where
  r_init: "snd (WikipediaSkill_init E settings tag) = Inr s \<Longrightarrow> reachable s"
| r_search: "reachable s \<Longrightarrow> reachable (fst (handle_search E message s))"
| r_roulette: "reachable s \<Longrightarrow> reachable (fst (handle_wiki_roulette_query E message s))"
| r_more: "reachable s \<Longrightarrow> reachable (fst (handle_tell_more E message s))"
| r_cqs_match: "reachable s \<Longrightarrow> reachable (fst (CQS_match_query_phrase E phrase s))"
| r_cqs_action: "reachable s \<Longrightarrow> reachable (fst (CQS_action E phrase data s))"
| r_stop: "reachable s \<Longrightarrow> reachable (fst (stop s))"

text \<open>The state after \<open>n\<close> consecutive "tell me more" requests.\<close>

fun tell_more :: "env \<Rightarrow> nat \<Rightarrow> skill \<Rightarrow> skill" where
  "tell_more E 0 s = s"
| "tell_more E (Suc n) s = fst (handle_tell_more E VNone (tell_more E n s))"

text \<open>What a handler adds to the host's output.\<close>

definition emitted :: "skill \<Rightarrow> skill \<Rightarrow> host_event list" where
  "emitted s s' = drop (length (out s)) (out s')"

section \<open>Notions used in the statements\<close>

text \<open>A property of every external call a computation has made.\<close>

definition calls_ok :: "(call \<Rightarrow> bool) \<Rightarrow> 'a comp \<Rightarrow> bool" where
  "calls_ok P m = list_all P (fst m)"

text \<open>The language argument of a call, for the calls that take one.\<close>

fun call_lang :: "call \<Rightarrow> string option" where
  "call_lang (Call_page_data q l) = Some l"
| "call_lang (Call_tldr q l) = Some l"
| "call_lang (Call_summary q l) = Some l"
| "call_lang (Call_tldr_about sq q l) = Some l"
| "call_lang (Call_ask_about sq q l) = Some l"
| "call_lang (Call_extract_subject q l) = Some l"
| "call_lang (Call_match p q) = None"
| "call_lang (Call_sentence_split t n) = None"
| "call_lang (Call_search q c) = None"
| "call_lang (Call_base_init c) = None"

definition in_lang :: "string \<Rightarrow> call \<Rightarrow> bool" where
  "in_lang L k = (call_lang k = None \<or> call_lang k = Some L)"

text \<open>The calls that belong to a secondary interpretation of the query.\<close>

fun is_secondary :: "call \<Rightarrow> bool" where
  "is_secondary (Call_match p q) = True"
| "is_secondary (Call_extract_subject q l) = True"
| "is_secondary (Call_page_data q l) = False"
| "is_secondary (Call_tldr q l) = False"
| "is_secondary (Call_summary q l) = False"
| "is_secondary (Call_tldr_about sq q l) = False"
| "is_secondary (Call_ask_about sq q l) = False"
| "is_secondary (Call_sentence_split t n) = False"
| "is_secondary (Call_search q c) = False"
| "is_secondary (Call_base_init c) = False"

text \<open>The pagination invariant: the cursor lies between 0 and the number of chunks;
  with no chunk list at all (\<open>results\<close> is \<open>None\<close>) it is 0.\<close>

definition cursor_ok :: "skill \<Rightarrow> bool" where
  "cursor_ok s =
     (0 \<le> idx s \<and> (case py_len (results s) of Inr n \<Rightarrow> idx s \<le> n | Inl e \<Rightarrow> idx s = 0))"

text \<open>A step of the expanded answer.\<close>

definition step :: "string \<Rightarrow> pyval \<Rightarrow> pyval \<Rightarrow> pyval" where
  "step t s img = VDict [(''title'', VStr t), (''summary'', s), (''img'', img)]"

text \<open>
  Pagination in the spec's words: given the sentences \<open>sp\<close> finds in a text, the chunks
  are the summary's sentences under the capitalized title \<open>t\<close>, then, section by section
  in the given order, each section's sentences under its capitalized title; one image
  for all. A section is its title and its text.
\<close>

definition paginate_spec ::
  "(string \<Rightarrow> string) \<Rightarrow> (pyval \<Rightarrow> pyval list) \<Rightarrow> string \<Rightarrow> pyval \<Rightarrow> (string \<times> pyval) list
     \<Rightarrow> pyval \<Rightarrow> pyval list" where
  "paginate_spec U sp t su secs img =
     map (\<lambda>s. step (str_title U t) s img) (sp su)
     @ concat (map (\<lambda>sec. map (\<lambda>s. step (str_title U (fst sec)) s img) (sp (snd sec))) secs)"

text \<open>The slice \<open>xs[:n]\<close>: the first \<open>n\<close> elements, or all but the last \<open>-n\<close> for a
  negative \<open>n\<close>.\<close>

definition py_slice_to :: "int \<Rightarrow> 'a list \<Rightarrow> 'a list" where
  "py_slice_to n xs = (if 0 \<le> n then take (nat n) xs else take (length xs - nat (- n)) xs)"

text \<open>A section dictionary with text \<open>snd sec\<close> whose title, or the query in its
  absence, is the string \<open>fst sec\<close>.\<close>

definition section_of :: "pyval \<Rightarrow> pyval \<Rightarrow> string \<times> pyval \<Rightarrow> bool" where
  "section_of query v sec =
     (py_item v ''text'' = Inr (snd sec) \<and> py_get v ''title'' query = Inr (VStr (fst sec)))"

text \<open>
  The state \<open>ask_the_wiki\<close> leaves behind, in closed form: the context marker set, the
  cursor at 0, the results replaced by the answer (or by \<open>None\<close>, with the failure
  logged), and the image replaced unless fetching it raised.
\<close>

definition after_ask :: "env \<Rightarrow> pyval \<Rightarrow> skill \<Rightarrow> skill" where
  "after_ask E q s =
     (let s1 = s\<lparr>contexts := dict_set (contexts s) ''WikiKnows'' q, idx := 0\<rparr>;
          s2 = (case base_long_answer E q (self_lang s) of
                  Inr r \<Rightarrow> s1\<lparr>results := r\<rparr>
                | Inl err \<Rightarrow> s1\<lparr>out := out s @ [Log_error err], results := VNone\<rparr>)
      in case snd (get_image E (wiki s) q VNone) of
           Inl e \<Rightarrow> s2
         | Inr img \<Rightarrow> s2\<lparr>image_ref := img\<rparr>)"

subsection \<open>A sample world\<close>

text \<open>
  Collaborators that know one page, "Isaac Newton", with a two-sentence summary, one
  section with text and one without, and one image; that decompose one attribute
  question; and a base class that reads the default language from the configuration and
  whose \<open>sentence_split(text, max_sentences)\<close> returns the sentences of the text cut by the
  slice \<open>[:max_sentences]\<close>.
  They serve to run the model on concrete requests.
\<close>

definition newton_page :: pyval where
  "newton_page =
     VDict [(''title'', VStr ''isaac newton''),
            (''sections'', VList [VDict [(''title'', VStr ''early life''), (''text'', VStr ''S3.'')],
                                  VDict [(''title'', VStr ''legacy''), (''text'', VStr [])]]),
            (''images'', VList [VStr ''newton.jpg''])]"

definition newton_steps :: "pyval list" where
  "newton_steps =
     [step ''Isaac Newton'' (VStr ''S1.'') (VStr ''newton.jpg''),
      step ''Isaac Newton'' (VStr ''S2.'') (VStr ''newton.jpg''),
      step ''Early Life'' (VStr ''S3.'') (VStr ''newton.jpg'')]"

text \<open>The sentences of the sample texts.\<close>

definition demo_split :: "pyval \<Rightarrow> pyval list" where
  "demo_split t =
     (if t = VStr ''S1. S2.'' then [VStr ''S1.'', VStr ''S2.'']
      else if t = VStr ''S3.'' then [VStr ''S3.'']
      else if t = VStr ''67 million.'' then [VStr ''67 million.'']
      else [])"

definition demo_env :: env where
  "demo_env =
     \<lparr>wiki_page_data = (\<lambda>q l. if q = VStr ''Isaac Newton'' then Inr newton_page else Inr (VDict [])),
      wiki_tldr = (\<lambda>q l. if q = VStr ''Isaac Newton'' then Inr (VStr ''S1.'') else Inr (VStr [])),
      wiki_summary = (\<lambda>q l. if q = VStr ''Isaac Newton'' then Inr (VStr ''S1. S2.'') else Inr (VStr [])),
      wiki_tldr_about = (\<lambda>sq q l. if sq = VStr ''population'' \<and> q = VStr ''France''
                                   then Inr (VStr ''67 million.'') else Inr (VStr [])),
      wiki_ask_about = (\<lambda>sq q l. if sq = VStr ''population'' \<and> q = VStr ''France''
                                  then Inr (VStr ''67 million.'') else Inr (VStr [])),
      simplematch_match = (\<lambda>p q. if p = ''what is the {subquery} of {query}''
                                      \<and> q = VStr ''what is the population of France''
                                   then Inr (VDict [(''subquery'', VStr ''population''),
                                                    (''query'', VStr ''France'')])
                                   else Inr VNone),
      extract_subject = (\<lambda>q l. if q = VStr ''who is Isaac Newton'' \<or> q = VStr ''Isaac Newton''
                                 then Inr (VStr ''Isaac Newton'') else Inr VNone),
      base_sentence_split = (\<lambda>t n. Inr (VList (py_slice_to n (demo_split t)))),
      base_search = (\<lambda>q c. if q = VStr ''Isaac Newton'' then Inr newton_page else Inr (VDict [])),
      base_long_answer = (\<lambda>q l. if q = VStr ''who is Isaac Newton'' then Inr (VList newton_steps)
                                  else Inr (VList [])),
      base_init = (\<lambda>c. case py_get c ''lang'' (VStr ''en'') of
                          Inl e \<Rightarrow> Inl e
                        | Inr l \<Rightarrow> Inr \<lparr>default_lang = l, cache = []\<rparr>),
      can_use_gui = True\<rparr>"

definition demo_solver :: solver where
  "demo_solver = \<lparr>default_lang = VStr ''en'', cache = []\<rparr>"

definition demo_skill :: skill where
  "demo_skill =
     \<lparr>wiki = demo_solver, self_lang = ''en-us'', idx = 0, results = VList [],
      image_ref = VNone, current_title = VNone, contexts = [], out = []\<rparr>"

text \<open>The same world where every page comes without a title.\<close>

definition untitled_env :: env where
  "untitled_env = demo_env\<lparr>wiki_page_data := (\<lambda>q l. Inr (VDict [(''images'', VList [])]))\<rparr>"

text \<open>The sample world without a screen and with a base class that answers nothing.\<close>

definition silent_env :: env where
  "silent_env = demo_env\<lparr>can_use_gui := False, base_long_answer := (\<lambda>q l. Inr (VList []))\<rparr>"

text \<open>The sample world where only the base class's long answer fails.\<close>

definition flaky_env :: env where
  "flaky_env = demo_env\<lparr>base_long_answer := (\<lambda>q l. Inl (Upstream ''timeout''))\<rparr>"

section \<open>Properties\<close>

subsection \<open>Basic facts\<close>

lemma split_on_takeWhile: "\<exists>ws. split_on c s = takeWhile (\<lambda>x. x \<noteq> c) s # ws"
  by (induction s) (auto split: list.splits)

lemma bnd_simps [simp]:
  "bnd (tr, Inl e) f = (tr, Inl e)"
  "bnd (tr, Inr x) f = (tr @ fst (f x), snd (f x))"
  by (simp_all add: bnd_def split: prod.splits)

lemma bnd_ret [simp]: "bnd (ret x) f = f x"
  by (simp add: ret_def)

lemma bnd_lift [simp]:
  "bnd (lift (Inr x)) f = f x"
  "bnd (lift (Inl e)) f = ([], Inl e)"
  by (simp_all add: lift_def)

lemma bnd_ext [simp]:
  "bnd (ext c (Inr x)) f = (c # fst (f x), snd (f x))"
  "bnd (ext c (Inl e)) f = ([c], Inl e)"
  by (simp_all add: ext_def)

lemma snd_ret [simp]: "snd (ret x) = Inr x"
  by (simp add: ret_def)

lemma snd_lift [simp]: "snd (lift r) = r"
  by (simp add: lift_def)

lemma snd_ext [simp]: "snd (ext c r) = r"
  by (simp add: ext_def)

lemma fst_ret [simp]: "fst (ret x) = []"
  by (simp add: ret_def)

lemma fst_lift [simp]: "fst (lift r) = []"
  by (simp add: lift_def)

lemma fst_ext [simp]: "fst (ext c r) = [c]"
  by (simp add: ext_def)

lemma calls_ok_bnd [simp]:
  "calls_ok P (bnd m f) = (calls_ok P m \<and> (\<forall>x. snd m = Inr x \<longrightarrow> calls_ok P (f x)))"
  by (cases m; cases "snd m") (auto simp: calls_ok_def)

lemma calls_ok_ret [simp]: "calls_ok P (ret x)"
  by (simp add: calls_ok_def)

lemma calls_ok_lift [simp]: "calls_ok P (lift r)"
  by (simp add: calls_ok_def)

lemma calls_ok_ext [simp]: "calls_ok P (ext c r) = P c"
  by (simp add: calls_ok_def)

subsection \<open>The language of a request\<close>



lemma secondary_in_lang: "calls_ok (in_lang L) (get_secondary_search E q L)"
  by (simp add: get_secondary_search_def extract_keyword_def in_lang_def split: option.splits)


lemma get_data_in_lang:
  assumes "request_lang self (py_or ctx0 (VDict [])) = Inr L"
  shows "calls_ok (in_lang L) (get_data E self q ctx0)"
  using secondary_in_lang[of L E q]
  by (simp add: get_data_def Let_def assms in_lang_def split: prod.splits)




subsection \<open>The secondary search\<close>

text \<open>
  C2. For an English query on which the template \<open>what is the {subquery} of {query}\<close>
  matches, the secondary search returns the captured \<open>query\<close> as subject and the
  captured \<open>subquery\<close> as attribute qualifier, and asks nothing else. For any other
  language, or when the matcher returns nothing, it returns what the keyword extractor
  returns, with no qualifier: the failed match itself raises nothing.
\<close>

theorem C2_secondary_search:
  "(lang = ''en''
      \<and> simplematch_match E ''what is the {subquery} of {query}'' query = Inr (VDict m)
      \<and> map_of m ''query'' = Some subject \<and> map_of m ''subquery'' = Some attribute \<longrightarrow>
      get_secondary_search E query lang =
        ([Call_match ''what is the {subquery} of {query}'' query], Inr (subject, attribute)))
   \<and> (lang \<noteq> ''en''
        \<or> simplematch_match E ''what is the {subquery} of {query}'' query = Inr VNone
        \<or> simplematch_match E ''what is the {subquery} of {query}'' query = Inr (VDict []) \<longrightarrow>
      snd (get_secondary_search E query lang) =
        map_sum id (\<lambda>k. (k, VNone)) (extract_subject E query lang)
      \<and> is_secondary (last (fst (get_secondary_search E query lang)))
      \<and> last (fst (get_secondary_search E query lang)) = Call_extract_subject query lang)"
proof (intro conjI impI)
  assume "lang = ''en''
      \<and> simplematch_match E ''what is the {subquery} of {query}'' query = Inr (VDict m)
      \<and> map_of m ''query'' = Some subject \<and> map_of m ''subquery'' = Some attribute"
  moreover from this have "m \<noteq> []" by auto
  ultimately show "get_secondary_search E query lang =
        ([Call_match ''what is the {subquery} of {query}'' query], Inr (subject, attribute))"
    by (simp add: get_secondary_search_def ret_def)
next
  assume a: "lang \<noteq> ''en''
        \<or> simplematch_match E ''what is the {subquery} of {query}'' query = Inr VNone
        \<or> simplematch_match E ''what is the {subquery} of {query}'' query = Inr (VDict [])"
  then show "snd (get_secondary_search E query lang) =
        map_sum id (\<lambda>k. (k, VNone)) (extract_subject E query lang)"
    by (cases "extract_subject E query lang")
       (auto simp: get_secondary_search_def extract_keyword_def)
  from a show "is_secondary (last (fst (get_secondary_search E query lang)))"
    by (cases "extract_subject E query lang")
       (auto simp: get_secondary_search_def extract_keyword_def)
  from a show "last (fst (get_secondary_search E query lang)) = Call_extract_subject query lang"
    by (cases "extract_subject E query lang")
       (auto simp: get_secondary_search_def extract_keyword_def)
qed

text \<open>
  The theorem on "what is the population of France" (a match) and on
  "who is Isaac Newton" (no match, the extractor answers).
\<close>

theorem C2_secondary_search_witness:
  "simplematch_match demo_env ''what is the {subquery} of {query}''
       (VStr ''what is the population of France'')
     = Inr (VDict [(''subquery'', VStr ''population''), (''query'', VStr ''France'')])
   \<and> get_secondary_search demo_env (VStr ''what is the population of France'') ''en''
     = ([Call_match ''what is the {subquery} of {query}'' (VStr ''what is the population of France'')],
        Inr (VStr ''France'', VStr ''population''))
   \<and> simplematch_match demo_env ''what is the {subquery} of {query}'' (VStr ''who is Isaac Newton'')
     = Inr VNone
   \<and> snd (get_secondary_search demo_env (VStr ''who is Isaac Newton'') ''en'')
     = Inr (VStr ''Isaac Newton'', VNone)"
proof -
  have m1: "simplematch_match demo_env ''what is the {subquery} of {query}''
       (VStr ''what is the population of France'')
     = Inr (VDict [(''subquery'', VStr ''population''), (''query'', VStr ''France'')])"
    by (simp add: demo_env_def)
  have m2: "simplematch_match demo_env ''what is the {subquery} of {query}''
       (VStr ''who is Isaac Newton'') = Inr VNone"
    by (simp add: demo_env_def)
  have e2: "extract_subject demo_env (VStr ''who is Isaac Newton'') ''en'' = Inr (VStr ''Isaac Newton'')"
    by (simp add: demo_env_def)
  have "get_secondary_search demo_env (VStr ''what is the population of France'') ''en''
     = ([Call_match ''what is the {subquery} of {query}'' (VStr ''what is the population of France'')],
        Inr (VStr ''France'', VStr ''population''))"
    using C2_secondary_search [of "''en''" demo_env "VStr ''what is the population of France''"
        "[(''subquery'', VStr ''population''), (''query'', VStr ''France'')]"
        "VStr ''France''" "VStr ''population''"] m1
    by simp
  moreover have "snd (get_secondary_search demo_env (VStr ''who is Isaac Newton'') ''en'')
     = Inr (VStr ''Isaac Newton'', VNone)"
    using C2_secondary_search [of "''en''" demo_env "VStr ''who is Isaac Newton''"] m2 e2
    by simp
  ultimately show ?thesis
    using m1 m2 by simp
qed

subsection \<open>The solver's default language\<close>

lemma map_of_dict_set: "map_of (dict_set d k v) = (map_of d)(k \<mapsto> v)"
  by (induction d k v rule: dict_set.induct) auto

lemma solver_init_config:
  assumes "cfg = VNone \<or> cfg = VDict c"
  shows "\<exists>c'. fst (WikipediaSolver_init E cfg) = [Call_base_init (VDict c')]
              \<and> map_of c' ''lang'' = Some (VStr ''en'')"
proof -
  have "\<exists>c0. py_or cfg (VDict []) = VDict c0"
    using assms by (cases "c = []") (auto simp: py_or_def)
  then obtain c0 where c0: "py_or cfg (VDict []) = VDict c0" ..
  show ?thesis
    by (cases "base_init E (VDict (dict_set c0 ''lang'' (VStr ''en'')))")
       (simp_all add: WikipediaSolver_init_def Let_def c0 map_of_dict_set)
qed

lemma solver_init_default_lang:
  assumes base: "\<And>c s l. base_init E (VDict c) = Inr s \<Longrightarrow> map_of c ''lang'' = Some l \<Longrightarrow> default_lang s = l"
    and "snd (WikipediaSolver_init E cfg) = Inr s"
  shows "default_lang s = VStr ''en''"
proof (cases "py_setitem (py_or cfg (VDict [])) ''lang'' (VStr ''en'')")
  case (Inl e)
  with assms(2) show ?thesis
    by (simp add: WikipediaSolver_init_def Let_def)
next
  case (Inr c1)
  then obtain c0 where c0: "py_or cfg (VDict []) = VDict c0"
    by (cases "py_or cfg (VDict [])") auto
  show ?thesis
  proof (cases "base_init E (VDict (dict_set c0 ''lang'' (VStr ''en'')))")
    case (Inl e)
    with assms(2) c0 show ?thesis
      by (simp add: WikipediaSolver_init_def Let_def)
  next
    case (Inr s0)
    then have "default_lang s0 = VStr ''en''"
      using base[of "dict_set c0 ''lang'' (VStr ''en'')" s0 "VStr ''en''"]
      by (simp add: map_of_dict_set)
    with assms(2) c0 Inr show ?thesis
      by (auto simp: WikipediaSolver_init_def Let_def)
  qed
qed

lemma skill_init_default_lang:
  assumes base: "\<And>c s l. base_init E (VDict c) = Inr s \<Longrightarrow> map_of c ''lang'' = Some l \<Longrightarrow> default_lang s = l"
    and "snd (WikipediaSkill_init E settings tag) = Inr sk"
  shows "default_lang (wiki sk) = VStr ''en''"
proof -
  obtain ws where ws: "split_on CHR ''-'' tag = takeWhile (\<lambda>x. x \<noteq> CHR ''-'') tag # ws"
    using split_on_takeWhile by blast
  define l where "l = (case map_of settings ''lang'' of Some l \<Rightarrow> l | None \<Rightarrow> VStr (takeWhile (\<lambda>x. x \<noteq> CHR ''-'') tag))"
  have eq: "WikipediaSkill_init E settings tag =
     bnd (WikipediaSolver_init E (VDict [(''lang'', l)])) (\<lambda>w.
     ret \<lparr>wiki = w, self_lang = tag, idx = 0, results = VList [], image_ref = VNone,
          current_title = VNone, contexts = [], out = []\<rparr>)"
    by (simp add: WikipediaSkill_init_def ws l_def split: option.splits)
  show ?thesis
  proof (cases "snd (WikipediaSolver_init E (VDict [(''lang'', l)]))")
    case (Inl e)
    with assms(2) show ?thesis
      by (cases "WikipediaSolver_init E (VDict [(''lang'', l)])") (simp add: eq)
  next
    case (Inr w)
    then have "default_lang w = VStr ''en''"
      using base solver_init_default_lang by blast
    with assms(2) Inr show ?thesis
      by (cases "WikipediaSolver_init E (VDict [(''lang'', l)])") (auto simp: eq)
  qed
qed

lemma get_data_lang_error:
  assumes "request_lang self (py_or ctx0 (VDict [])) = Inl e"
  shows "fst (get_data E self q ctx0) = []"
  by (simp add: get_data_def Let_def assms)

lemma request_lang_without_override:
  assumes "default_lang self = VStr d"
    and "\<not> (\<exists>c l. ctx0 = VDict c \<and> map_of c ''lang'' = Some l \<and> truthy l)"
  shows "request_lang self (py_or ctx0 (VDict [])) = Inr (takeWhile (\<lambda>x. x \<noteq> CHR ''-'') d)
         \<or> (\<exists>e. request_lang self (py_or ctx0 (VDict [])) = Inl e)"
proof -
  obtain ws where ws: "split_on CHR ''-'' d = takeWhile (\<lambda>x. x \<noteq> CHR ''-'') d # ws"
    using split_on_takeWhile by blast
  show ?thesis
  proof (cases ctx0)
    case (VDict c)
    with assms ws show ?thesis
      by (cases "map_of c ''lang''") (auto simp: request_lang_def py_or_def)
  qed (use assms ws in \<open>auto simp: request_lang_def py_or_def\<close>)
qed

text \<open>
  C10. The constructor hands the base class a configuration whose \<open>lang\<close> entry is
  \<open>en\<close>, whatever configuration it was given. So, with a base class that takes the
  default language from that entry, the default language of every solver is \<open>en\<close>,
  also of the solver the skill builds from its own settings or locale; and a fetch of
  \<open>get_data\<close> in another language implies a context with a \<open>lang\<close> entry.
\<close>

theorem C10_solver_default_english:
  assumes "\<And>c s l. base_init E (VDict c) = Inr s \<Longrightarrow> map_of c ''lang'' = Some l \<Longrightarrow> default_lang s = l"
  shows "(cfg = VNone \<or> cfg = VDict c \<longrightarrow>
            (\<exists>c'. fst (WikipediaSolver_init E cfg) = [Call_base_init (VDict c')]
                   \<and> map_of c' ''lang'' = Some (VStr ''en'')))
       \<and> (snd (WikipediaSolver_init E cfg) = Inr s \<longrightarrow> default_lang s = VStr ''en'')
       \<and> (snd (WikipediaSkill_init E settings tag) = Inr sk \<longrightarrow> default_lang (wiki sk) = VStr ''en'')
       \<and> (default_lang self = VStr ''en'' \<and> \<not> calls_ok (in_lang ''en'') (get_data E' self q ctx0) \<longrightarrow>
            (\<exists>c l. ctx0 = VDict c \<and> map_of c ''lang'' = Some l \<and> truthy l))"
proof (intro conjI impI)
  assume "cfg = VNone \<or> cfg = VDict c"
  then show "\<exists>c'. fst (WikipediaSolver_init E cfg) = [Call_base_init (VDict c')]
                   \<and> map_of c' ''lang'' = Some (VStr ''en'')"
    by (rule solver_init_config)
next
  assume "snd (WikipediaSolver_init E cfg) = Inr s"
  with assms show "default_lang s = VStr ''en''"
    by (rule solver_init_default_lang)
next
  assume "snd (WikipediaSkill_init E settings tag) = Inr sk"
  with assms show "default_lang (wiki sk) = VStr ''en''"
    by (rule skill_init_default_lang)
next
  assume a: "default_lang self = VStr ''en'' \<and> \<not> calls_ok (in_lang ''en'') (get_data E' self q ctx0)"
  show "\<exists>c l. ctx0 = VDict c \<and> map_of c ''lang'' = Some l \<and> truthy l"
  proof (rule ccontr)
    assume n: "\<not> (\<exists>c l. ctx0 = VDict c \<and> map_of c ''lang'' = Some l \<and> truthy l)"
    from a have d: "default_lang self = VStr ''en''" by simp
    from request_lang_without_override [OF d n]
    have "calls_ok (in_lang ''en'') (get_data E' self q ctx0)"
    proof
      assume "request_lang self (py_or ctx0 (VDict [])) = Inr (takeWhile (\<lambda>x. x \<noteq> CHR ''-'') ''en'')"
      then have "request_lang self (py_or ctx0 (VDict [])) = Inr ''en''" by simp
      then show ?thesis by (rule get_data_in_lang)
    next
      assume "\<exists>e. request_lang self (py_or ctx0 (VDict [])) = Inl e"
      then show ?thesis
        using get_data_lang_error by (auto simp: calls_ok_def)
    qed
    with a show False by simp
  qed
qed

text \<open>
  The theorem on a skill configured for Portuguese: its solver still defaults to \<open>en\<close>.
\<close>

theorem C10_solver_default_english_witness:
  "snd (WikipediaSkill_init demo_env [(''lang'', VStr ''pt'')] ''pt-br'')
     = Inr (demo_skill\<lparr>self_lang := ''pt-br''\<rparr>)
   \<and> default_lang (wiki (demo_skill\<lparr>self_lang := ''pt-br''\<rparr>)) = VStr ''en''
   \<and> fst (WikipediaSolver_init demo_env (VDict [(''lang'', VStr ''pt'')]))
     = [Call_base_init (VDict [(''lang'', VStr ''en'')])]"
proof -
  have base: "\<And>c s l. base_init demo_env (VDict c) = Inr s \<Longrightarrow> map_of c ''lang'' = Some l
                \<Longrightarrow> default_lang s = l"
    by (auto simp: demo_env_def)
  have run: "snd (WikipediaSkill_init demo_env [(''lang'', VStr ''pt'')] ''pt-br'')
     = Inr (demo_skill\<lparr>self_lang := ''pt-br''\<rparr>)"
    by (simp add: WikipediaSkill_init_def WikipediaSolver_init_def demo_env_def demo_skill_def
        demo_solver_def py_or_def)
  have tr: "fst (WikipediaSolver_init demo_env (VDict [(''lang'', VStr ''pt'')]))
     = [Call_base_init (VDict [(''lang'', VStr ''en'')])]"
    by (simp add: WikipediaSolver_init_def demo_env_def py_or_def)
  from C10_solver_default_english [where E = demo_env and settings = "[(''lang'', VStr ''pt'')]"
      and tag = "''pt-br''" and sk = "demo_skill\<lparr>self_lang := ''pt-br''\<rparr>", OF base] run
  have "default_lang (wiki (demo_skill\<lparr>self_lang := ''pt-br''\<rparr>)) = VStr ''en''"
    by simp
  with run tr show ?thesis by simp
qed

subsection \<open>Resolution: \<open>get_data\<close>\<close>

lemma fst_bnd: "fst (bnd m f) = fst m @ (case snd m of Inl e \<Rightarrow> [] | Inr x \<Rightarrow> fst (f x))"
  by (cases m; cases "snd m") auto

lemma snd_bnd: "snd (bnd m f) = (case snd m of Inl e \<Rightarrow> Inl e | Inr x \<Rightarrow> snd (f x))"
  by (cases m; cases "snd m") auto

lemma filter_calls_ok: "calls_ok P m \<Longrightarrow> filter P (fst m) = fst m"
  by (simp add: calls_ok_def list_all_iff)

lemma secondary_search_calls_secondary: "calls_ok is_secondary (get_secondary_search E q L)"
  by (simp add: get_secondary_search_def extract_keyword_def split: option.splits)

lemma secondary_search_calls:
  "fst (get_secondary_search E q L) \<in>
     {[Call_match ''what is the {subquery} of {query}'' q],
      [Call_match ''what is the {subquery} of {query}'' q, Call_extract_subject q L],
      [Call_extract_subject q L]}"
proof (cases "L = ''en''")
  case True
  show ?thesis
  proof (cases "simplematch_match E ''what is the {subquery} of {query}'' q")
    case (Inl e)
    with True show ?thesis by (simp add: get_secondary_search_def)
  next
    case (Inr m)
    show ?thesis
    proof (cases "truthy m")
      case False
      with True Inr show ?thesis
        by (cases "extract_subject E q L") (simp_all add: get_secondary_search_def extract_keyword_def)
    next
      case t: True
      with True Inr show ?thesis
        by (cases "py_item m ''query''"; cases "py_item m ''subquery''")
           (simp_all add: get_secondary_search_def)
    qed
  qed
next
  case False
  then show ?thesis
    by (cases "extract_subject E q L") (simp_all add: get_secondary_search_def extract_keyword_def)
qed

lemma get_data_page_found:
  assumes L: "request_lang self (py_or ctx0 (VDict [])) = Inr L"
    and pd: "wiki_page_data E q L = Inr (VDict p)" "p \<noteq> []"
    and sa: "wiki_tldr E q L = Inr sa" and su: "wiki_summary E q L = Inr su"
  shows "get_data E self q ctx0 =
           ([Call_page_data q L, Call_tldr q L, Call_summary q L],
            Inr (VDict (dict_set (dict_update p [(''short_answer'', sa), (''summary'', su)]) ''title''
                   (py_or (case map_of p ''title'' of Some t \<Rightarrow> t | None \<Rightarrow> VNone) q))))"
  using assms
  by (simp add: get_data_def Let_def py_or_def map_of_dict_set lift_def)

lemma get_data_no_page:
  assumes L: "request_lang self (py_or ctx0 (VDict [])) = Inr L"
    and pd: "wiki_page_data E q L = Inr pd" "\<not> truthy pd"
    and sa: "wiki_tldr E q L = Inr sa" and su: "wiki_summary E q L = Inr su"
  shows "filter is_secondary (fst (get_data E self q ctx0)) = fst (get_secondary_search E q L)"
proof -
  have "filter is_secondary (fst (get_secondary_search E q L)) = fst (get_secondary_search E q L)"
    using secondary_search_calls_secondary by (rule filter_calls_ok)
  then show ?thesis
    using assms
    by (cases "get_secondary_search E q L"; cases "snd (get_secondary_search E q L)")
       (auto simp: get_data_def Let_def py_or_def fst_bnd split: sum.splits prod.splits)
qed

lemma get_data_no_page_attribute:
  assumes L: "request_lang self (py_or ctx0 (VDict [])) = Inr L"
    and pd: "wiki_page_data E q L = Inr pd" "\<not> truthy pd"
    and sa: "wiki_tldr E q L = Inr sa" and su: "wiki_summary E q L = Inr su"
    and sec: "snd (get_secondary_search E q L) = Inr (subject, attribute)" "truthy attribute"
    and a: "wiki_tldr_about E attribute subject L = Inr a" and b: "wiki_ask_about E attribute subject L = Inr b"
  shows "snd (get_data E self q ctx0) =
           Inr (VDict [(''short_answer'', a), (''summary'', b), (''title'', subject)])"
  using assms
  by (cases "get_secondary_search E q L")
     (simp add: get_data_def Let_def py_or_def lift_def)

lemma get_data_no_page_plain:
  assumes L: "request_lang self (py_or ctx0 (VDict [])) = Inr L"
    and pd: "wiki_page_data E q L = Inr pd" "\<not> truthy pd"
    and sa: "wiki_tldr E q L = Inr sa" and su: "wiki_summary E q L = Inr su"
    and sec: "snd (get_secondary_search E q L) = Inr (subject, attribute)" "\<not> truthy attribute"
    and a: "wiki_tldr E subject L = Inr a" and b: "wiki_summary E subject L = Inr b"
  shows "snd (get_data E self q ctx0) =
           Inr (VDict [(''short_answer'', a), (''summary'', b), (''title'', subject)])"
  using assms
  by (cases "get_secondary_search E q L")
     (simp add: get_data_def Let_def py_or_def lift_def)

text \<open>
  C3, as the code has it. Once the primary fetches have returned: a non-empty page means
  no secondary call at all, and the title is the page's title, or the original query when
  the page has none; an empty page means the secondary calls are exactly those of one
  secondary search on the original query (one match attempt, one keyword extraction, or
  the first followed by the second), and the title is the subject that search returned.
\<close>

theorem C3_resolver_secondary_and_title:
  assumes "request_lang self (py_or ctx0 (VDict [])) = Inr L"
    and "wiki_page_data E q L = Inr pd"
    and "wiki_tldr E q L = Inr sa" and "wiki_summary E q L = Inr su"
  shows "(pd = VDict p \<and> p \<noteq> [] \<longrightarrow>
            filter is_secondary (fst (get_data E self q ctx0)) = [] \<and>
            snd (get_data E self q ctx0) =
              Inr (VDict (dict_set (dict_update p [(''short_answer'', sa), (''summary'', su)]) ''title''
                     (py_or (case map_of p ''title'' of Some t \<Rightarrow> t | None \<Rightarrow> VNone) q))))
       \<and> (\<not> truthy pd \<longrightarrow>
            filter is_secondary (fst (get_data E self q ctx0)) = fst (get_secondary_search E q L) \<and>
            fst (get_secondary_search E q L) \<in>
              {[Call_match ''what is the {subquery} of {query}'' q],
               [Call_match ''what is the {subquery} of {query}'' q, Call_extract_subject q L],
               [Call_extract_subject q L]})
       \<and> (\<not> truthy pd \<and> snd (get_secondary_search E q L) = Inr (subject, attribute) \<and>
          truthy attribute \<and> wiki_tldr_about E attribute subject L = Inr a \<and>
          wiki_ask_about E attribute subject L = Inr b \<longrightarrow>
            snd (get_data E self q ctx0) =
              Inr (VDict [(''short_answer'', a), (''summary'', b), (''title'', subject)]))
       \<and> (\<not> truthy pd \<and> snd (get_secondary_search E q L) = Inr (subject, attribute) \<and>
          \<not> truthy attribute \<and> wiki_tldr E subject L = Inr a \<and> wiki_summary E subject L = Inr b \<longrightarrow>
            snd (get_data E self q ctx0) =
              Inr (VDict [(''short_answer'', a), (''summary'', b), (''title'', subject)]))"
proof (intro conjI impI)
  assume "pd = VDict p \<and> p \<noteq> []"
  then have *: "get_data E self q ctx0 =
           ([Call_page_data q L, Call_tldr q L, Call_summary q L],
            Inr (VDict (dict_set (dict_update p [(''short_answer'', sa), (''summary'', su)]) ''title''
                   (py_or (case map_of p ''title'' of Some t \<Rightarrow> t | None \<Rightarrow> VNone) q))))"
    using assms get_data_page_found by blast
  show "filter is_secondary (fst (get_data E self q ctx0)) = []"
    by (simp add: *)
  show "snd (get_data E self q ctx0) =
              Inr (VDict (dict_set (dict_update p [(''short_answer'', sa), (''summary'', su)]) ''title''
                     (py_or (case map_of p ''title'' of Some t \<Rightarrow> t | None \<Rightarrow> VNone) q)))"
    by (simp add: *)
next
  assume "\<not> truthy pd"
  with assms show "filter is_secondary (fst (get_data E self q ctx0)) = fst (get_secondary_search E q L)"
    using get_data_no_page by blast
next
  show "fst (get_secondary_search E q L) \<in>
              {[Call_match ''what is the {subquery} of {query}'' q],
               [Call_match ''what is the {subquery} of {query}'' q, Call_extract_subject q L],
               [Call_extract_subject q L]}"
    by (rule secondary_search_calls)
next
  assume "\<not> truthy pd \<and> snd (get_secondary_search E q L) = Inr (subject, attribute) \<and>
          truthy attribute \<and> wiki_tldr_about E attribute subject L = Inr a \<and>
          wiki_ask_about E attribute subject L = Inr b"
  with assms show "snd (get_data E self q ctx0) =
              Inr (VDict [(''short_answer'', a), (''summary'', b), (''title'', subject)])"
    using get_data_no_page_attribute by blast
next
  assume "\<not> truthy pd \<and> snd (get_secondary_search E q L) = Inr (subject, attribute) \<and>
          \<not> truthy attribute \<and> wiki_tldr E subject L = Inr a \<and> wiki_summary E subject L = Inr b"
  with assms show "snd (get_data E self q ctx0) =
              Inr (VDict [(''short_answer'', a), (''summary'', b), (''title'', subject)])"
    using get_data_no_page_plain by blast
qed

text \<open>
  The theorem on a page without a title (the title becomes the query), and on the
  attribute question about France, for which there is no page (the title becomes the
  subject of the decomposition).
\<close>

theorem C3_resolver_secondary_and_title_witness:
  "request_lang demo_solver (py_or VNone (VDict [])) = Inr ''en''
   \<and> wiki_page_data untitled_env (VStr ''Ada Lovelace'') ''en'' = Inr (VDict [(''images'', VList [])])
   \<and> snd (get_data untitled_env demo_solver (VStr ''Ada Lovelace'') VNone)
     = Inr (VDict [(''images'', VList []), (''short_answer'', VStr []), (''summary'', VStr []),
                   (''title'', VStr ''Ada Lovelace'')])
   \<and> wiki_page_data demo_env (VStr ''what is the population of France'') ''en'' = Inr (VDict [])
   \<and> filter is_secondary
       (fst (get_data demo_env demo_solver (VStr ''what is the population of France'') VNone))
     = [Call_match ''what is the {subquery} of {query}'' (VStr ''what is the population of France'')]
   \<and> snd (get_data demo_env demo_solver (VStr ''what is the population of France'') VNone)
     = Inr (VDict [(''short_answer'', VStr ''67 million.''), (''summary'', VStr ''67 million.''),
                   (''title'', VStr ''France'')])"
proof -
  have L: "request_lang demo_solver (py_or VNone (VDict [])) = Inr ''en''"
    by (simp add: request_lang_def py_or_def demo_solver_def)
  have p1: "wiki_page_data untitled_env (VStr ''Ada Lovelace'') ''en'' = Inr (VDict [(''images'', VList [])])"
    by (simp add: untitled_env_def)
  have f1: "wiki_tldr untitled_env (VStr ''Ada Lovelace'') ''en'' = Inr (VStr [])"
    "wiki_summary untitled_env (VStr ''Ada Lovelace'') ''en'' = Inr (VStr [])"
    by (simp_all add: untitled_env_def demo_env_def)
  have p2: "wiki_page_data demo_env (VStr ''what is the population of France'') ''en'' = Inr (VDict [])"
    by (simp add: demo_env_def)
  have f2: "wiki_tldr demo_env (VStr ''what is the population of France'') ''en'' = Inr (VStr [])"
    "wiki_summary demo_env (VStr ''what is the population of France'') ''en'' = Inr (VStr [])"
    by (simp_all add: demo_env_def)
  have s2: "get_secondary_search demo_env (VStr ''what is the population of France'') ''en''
     = ([Call_match ''what is the {subquery} of {query}'' (VStr ''what is the population of France'')],
        Inr (VStr ''France'', VStr ''population''))"
    by (simp add: get_secondary_search_def demo_env_def ret_def)
  have a2: "wiki_tldr_about demo_env (VStr ''population'') (VStr ''France'') ''en'' = Inr (VStr ''67 million.'')"
    "wiki_ask_about demo_env (VStr ''population'') (VStr ''France'') ''en'' = Inr (VStr ''67 million.'')"
    by (simp_all add: demo_env_def)
  have "snd (get_data untitled_env demo_solver (VStr ''Ada Lovelace'') VNone)
     = Inr (VDict [(''images'', VList []), (''short_answer'', VStr []), (''summary'', VStr []),
                   (''title'', VStr ''Ada Lovelace'')])"
    using C3_resolver_secondary_and_title [OF L p1 f1, where p = "[(''images'', VList [])]"]
    by (simp add: py_or_def)
  moreover have "filter is_secondary
       (fst (get_data demo_env demo_solver (VStr ''what is the population of France'') VNone))
     = [Call_match ''what is the {subquery} of {query}'' (VStr ''what is the population of France'')]"
    using C3_resolver_secondary_and_title [OF L p2 f2] s2
    by simp
  moreover have "snd (get_data demo_env demo_solver (VStr ''what is the population of France'') VNone)
     = Inr (VDict [(''short_answer'', VStr ''67 million.''), (''summary'', VStr ''67 million.''),
                   (''title'', VStr ''France'')])"
    using C3_resolver_secondary_and_title [OF L p2 f2, where subject = "VStr ''France''"
        and attribute = "VStr ''population''" and a = "VStr ''67 million.''" and b = "VStr ''67 million.''"]
      s2 a2
    by simp
  ultimately show ?thesis
    using L p1 p2 by simp
qed

text \<open>
  C3 as stated fails: for "what is the population of France" the page data is empty, so
  it carries no title, and the title of the result is the subject "France", not the
  original query text.
\<close>

theorem C3_title_counterexample:
  "wiki_page_data demo_env (VStr ''what is the population of France'') ''en'' = Inr (VDict [])
   \<and> (case snd (get_data demo_env demo_solver (VStr ''what is the population of France'') VNone) of
        Inl e \<Rightarrow> False
      | Inr r \<Rightarrow> py_item r ''title'' = Inr (VStr ''France'')
                 \<and> py_item r ''title'' \<noteq> Inr (VStr ''what is the population of France''))"
  by (simp add: get_data_def get_secondary_search_def demo_env_def demo_solver_def
      request_lang_def py_or_def Let_def)

subsection \<open>Nothing found\<close>

lemma extract_and_search_no_subject:
  assumes "request_lang self (py_or ctx0 (VDict [])) = Inr L"
    and "extract_subject E q L = Inr k" and "\<not> truthy k"
  shows "extract_and_search E self q ctx0 = ([Call_extract_subject q L], Inr (VDict []))"
  using assms by (simp add: extract_and_search_def extract_keyword_def Let_def ret_def)

text \<open>
  C5. When the keyword extractor yields no subject, \<open>extract_and_search\<close> returns the
  empty dictionary without searching, so the spoken answer is the empty string and the
  image is \<open>None\<close>. When \<open>get_data\<close> finds no page and the library has no text for the
  subject of the secondary search either, it returns a result that holds nothing but the
  two empty texts and the defaulted title. Neither raises.
\<close>

theorem C5_not_found_is_a_value:
  assumes "request_lang self (py_or ctx0 (VDict [])) = Inr L"
  shows "(extract_subject E q L = Inr k \<and> \<not> truthy k \<longrightarrow>
            extract_and_search E self q ctx0 = ([Call_extract_subject q L], Inr (VDict [])) \<and>
            snd (get_spoken_answer E self q ctx0) = Inr (VStr []) \<and>
            snd (get_image E self q ctx0) = Inr VNone)
       \<and> (wiki_page_data E q L = Inr pd \<and> \<not> truthy pd \<and>
          wiki_tldr E q L = Inr sa \<and> wiki_summary E q L = Inr su \<and>
          snd (get_secondary_search E q L) = Inr (subject, attribute) \<and> \<not> truthy attribute \<and>
          wiki_tldr E subject L = Inr a \<and> wiki_summary E subject L = Inr b \<and>
          \<not> truthy a \<and> \<not> truthy b \<longrightarrow>
            snd (get_data E self q ctx0) =
              Inr (VDict [(''short_answer'', a), (''summary'', b), (''title'', subject)]))"
proof (intro conjI impI)
  assume a: "extract_subject E q L = Inr k \<and> \<not> truthy k"
  with assms show e: "extract_and_search E self q ctx0 = ([Call_extract_subject q L], Inr (VDict []))"
    using extract_and_search_no_subject by blast
  show "snd (get_spoken_answer E self q ctx0) = Inr (VStr [])"
    by (simp add: get_spoken_answer_def e)
  show "snd (get_image E self q ctx0) = Inr VNone"
    by (simp add: get_image_def e)
next
  assume "wiki_page_data E q L = Inr pd \<and> \<not> truthy pd \<and>
          wiki_tldr E q L = Inr sa \<and> wiki_summary E q L = Inr su \<and>
          snd (get_secondary_search E q L) = Inr (subject, attribute) \<and> \<not> truthy attribute \<and>
          wiki_tldr E subject L = Inr a \<and> wiki_summary E subject L = Inr b \<and>
          \<not> truthy a \<and> \<not> truthy b"
  with assms show "snd (get_data E self q ctx0) =
              Inr (VDict [(''short_answer'', a), (''summary'', b), (''title'', subject)])"
    using get_data_no_page_plain by blast
qed

text \<open>The theorem on a query the sample extractor has no subject for.\<close>

theorem C5_not_found_is_a_value_witness:
  "request_lang demo_solver (py_or VNone (VDict [])) = Inr ''en''
   \<and> extract_subject demo_env (VStr ''xyzzy'') ''en'' = Inr VNone
   \<and> extract_and_search demo_env demo_solver (VStr ''xyzzy'') VNone
     = ([Call_extract_subject (VStr ''xyzzy'') ''en''], Inr (VDict []))
   \<and> snd (get_spoken_answer demo_env demo_solver (VStr ''xyzzy'') VNone) = Inr (VStr [])
   \<and> snd (get_image demo_env demo_solver (VStr ''xyzzy'') VNone) = Inr VNone
   \<and> snd (get_data demo_env demo_solver (VStr ''xyzzy'') VNone)
     = Inr (VDict [(''short_answer'', VStr []), (''summary'', VStr []), (''title'', VNone)])"
proof -
  have L: "request_lang demo_solver (py_or VNone (VDict [])) = Inr ''en''"
    by (simp add: request_lang_def py_or_def demo_solver_def)
  have k: "extract_subject demo_env (VStr ''xyzzy'') ''en'' = Inr VNone"
    by (simp add: demo_env_def)
  have f: "wiki_page_data demo_env (VStr ''xyzzy'') ''en'' = Inr (VDict [])"
    "wiki_tldr demo_env (VStr ''xyzzy'') ''en'' = Inr (VStr [])"
    "wiki_summary demo_env (VStr ''xyzzy'') ''en'' = Inr (VStr [])"
    "wiki_tldr demo_env VNone ''en'' = Inr (VStr [])"
    "wiki_summary demo_env VNone ''en'' = Inr (VStr [])"
    by (simp_all add: demo_env_def)
  have s: "snd (get_secondary_search demo_env (VStr ''xyzzy'') ''en'') = Inr (VNone, VNone)"
    by (simp add: get_secondary_search_def extract_keyword_def demo_env_def)
  from C5_not_found_is_a_value [OF L, where E = demo_env and q = "VStr ''xyzzy''" and k = VNone
      and pd = "VDict []" and sa = "VStr []" and su = "VStr []" and subject = VNone
      and attribute = VNone and a = "VStr []" and b = "VStr []"] k f s
  show ?thesis
    using L by simp
qed

subsection \<open>Pagination: \<open>get_expanded_answer\<close>\<close>

lemma steps_for_titled:
  assumes "py_get d ''title'' query = Inr (VStr t)"
  shows "steps_for U d query img sents = Inr (map (\<lambda>s. step (str_title U t) s img) sents)"
  using assms by (induction sents) (simp_all add: step_def)

lemma section_steps_spec:
  assumes sp: "\<And>t. base_sentence_split E t (- 1) = Inr (VList (sp t))"
    and "list_all2 (section_of query) sl secs"
  shows "snd (section_steps U E query img sl acc) =
           Inr (acc @ concat (map (\<lambda>sec. map (\<lambda>s. step (str_title U (fst sec)) s img)
                                          (sp (snd sec))) secs))"
  using assms(2)
proof (induction sl secs arbitrary: acc rule: list_all2_induct)
  case Nil
  show ?case by simp
next
  case (Cons v sl sec secs)
  from Cons.hyps(1) have "py_item v ''text'' = Inr (snd sec)"
    and "steps_for U v query img (sp (snd sec)) =
           Inr (map (\<lambda>s. step (str_title U (fst sec)) s img) (sp (snd sec)))"
    by (simp_all add: section_of_def steps_for_titled)
  then show ?case
    by (simp add: sp snd_bnd Cons.IH)
qed

text \<open>
  What the code builds from the lists the splitter hands back when it is asked for
  \<open>max_sentences = -1\<close>: the summary's steps, then the sections' steps in order.
\<close>

lemma expand_steps_spec:
  assumes sp: "\<And>t. base_sentence_split E t (- 1) = Inr (VList (sp t))"
    and su: "py_item dat ''summary'' = Inr su"
    and t: "py_get dat ''title'' query = Inr (VStr t)"
    and secs: "py_get dat ''sections'' (VList []) = Inr (VList sl)"
    and sl: "list_all2 (section_of query) sl secs"
  shows "snd (expand_steps U E query dat img) = Inr (VList (paginate_spec U sp t su secs img))"
proof -
  have "steps_for U dat query img (sp su) = Inr (map (\<lambda>s. step (str_title U t) s img) (sp su))"
    using t by (rule steps_for_titled)
  moreover have "snd (section_steps U E query img sl (map (\<lambda>s. step (str_title U t) s img) (sp su))) =
      Inr (map (\<lambda>s. step (str_title U t) s img) (sp su)
           @ concat (map (\<lambda>sec. map (\<lambda>s. step (str_title U (fst sec)) s img) (sp (snd sec))) secs))"
    using sp sl by (rule section_steps_spec)
  ultimately show ?thesis
    by (simp add: expand_steps_def su sp secs snd_bnd paginate_spec_def)
qed

lemma py_slice_to_minus_one: "py_slice_to (- 1) xs = butlast xs"
  by (simp add: py_slice_to_def butlast_conv_take)

text \<open>
  With a base class whose \<open>sentence_split\<close> cuts the sentences \<open>tok t\<close> of a text by the
  slice \<open>[:max_sentences]\<close>, the steps are those of the sentences without the last one of
  the summary and of every section.
\<close>

lemma expand_steps_drops_last:
  assumes "\<And>t n. base_sentence_split E t n = Inr (VList (py_slice_to n (tok t)))"
    and "py_item dat ''summary'' = Inr su"
    and "py_get dat ''title'' query = Inr (VStr t)"
    and "py_get dat ''sections'' (VList []) = Inr (VList sl)"
    and "list_all2 (section_of query) sl secs"
  shows "snd (expand_steps U E query dat img) =
           Inr (VList (paginate_spec U (\<lambda>t. butlast (tok t)) t su secs img))"
proof -
  have "\<And>t. base_sentence_split E t (- 1) = Inr (VList (butlast (tok t)))"
    by (simp add: assms(1) py_slice_to_minus_one)
  then show ?thesis
    using assms(2-5) by (rule expand_steps_spec)
qed

lemma demo_titles:
  "str_title (\<lambda>s. s) ''isaac newton'' = ''Isaac Newton''"
  "str_title (\<lambda>s. s) ''early life'' = ''Early Life''"
  by code_simp+

text \<open>
  C4 does not hold of the code. The sample page has the summary "S1. S2." and a section
  with the text "S3."; asked with a positive limit the splitter returns both sentences of
  the summary and the one of the section. \<open>get_expanded_answer\<close> asks with
  \<open>max_sentences = -1\<close>, so the slice drops the last sentence of each text: the answer
  has the single step S1, where the claim has S1, S2, S3.
\<close>

theorem C4_last_sentence_dropped:
  "base_sentence_split demo_env (VStr ''S1. S2.'') 25 = Inr (VList [VStr ''S1.'', VStr ''S2.''])
   \<and> base_sentence_split demo_env (VStr ''S3.'') 25 = Inr (VList [VStr ''S3.''])
   \<and> snd (get_data demo_env demo_solver (VStr ''Isaac Newton'') VNone)
     = Inr (VDict [(''title'', VStr ''isaac newton''),
                   (''sections'', VList [VDict [(''title'', VStr ''early life''), (''text'', VStr ''S3.'')],
                                         VDict [(''title'', VStr ''legacy''), (''text'', VStr [])]]),
                   (''images'', VList [VStr ''newton.jpg'']),
                   (''short_answer'', VStr ''S1.''), (''summary'', VStr ''S1. S2.'')])
   \<and> snd (get_expanded_answer (\<lambda>s. s) demo_env demo_solver (VStr ''Isaac Newton'') VNone)
     = Inr (VList [VDict [(''title'', VStr ''Isaac Newton''), (''summary'', VStr ''S1.''),
                          (''img'', VStr ''newton.jpg'')]])"
proof -
  let ?dat = "VDict [(''title'', VStr ''isaac newton''),
                   (''sections'', VList [VDict [(''title'', VStr ''early life''), (''text'', VStr ''S3.'')],
                                         VDict [(''title'', VStr ''legacy''), (''text'', VStr [])]]),
                   (''images'', VList [VStr ''newton.jpg'']),
                   (''short_answer'', VStr ''S1.''), (''summary'', VStr ''S1. S2.'')]"
  have s1: "base_sentence_split demo_env (VStr ''S1. S2.'') 25 = Inr (VList [VStr ''S1.'', VStr ''S2.''])"
    and s2: "base_sentence_split demo_env (VStr ''S3.'') 25 = Inr (VList [VStr ''S3.''])"
    by (simp_all add: demo_env_def demo_split_def py_slice_to_def)
  have d: "snd (get_data demo_env demo_solver (VStr ''Isaac Newton'') VNone) = Inr ?dat"
    by (simp add: get_data_def demo_env_def demo_solver_def newton_page_def request_lang_def
        py_or_def Let_def)
  have i: "snd (get_image demo_env demo_solver (VStr ''Isaac Newton'') VNone) = Inr (VStr ''newton.jpg'')"
    by (simp add: get_image_def extract_and_search_def extract_keyword_def demo_env_def
        demo_solver_def newton_page_def request_lang_def py_or_def Let_def list_index_def)
  have sp: "\<And>t n. base_sentence_split demo_env t n = Inr (VList (py_slice_to n (demo_split t)))"
    by (simp add: demo_env_def)
  have sl: "list_all2 (section_of (VStr ''Isaac Newton''))
      [VDict [(''title'', VStr ''early life''), (''text'', VStr ''S3.'')],
       VDict [(''title'', VStr ''legacy''), (''text'', VStr [])]]
      [(''early life'', VStr ''S3.''), (''legacy'', VStr [])]"
    by (simp add: section_of_def)
  have "snd (expand_steps (\<lambda>s. s) demo_env (VStr ''Isaac Newton'') ?dat (VStr ''newton.jpg''))
      = Inr (VList (paginate_spec (\<lambda>s. s) (\<lambda>t. butlast (demo_split t)) ''isaac newton''
               (VStr ''S1. S2.'') [(''early life'', VStr ''S3.''), (''legacy'', VStr [])]
               (VStr ''newton.jpg'')))"
  proof (rule expand_steps_drops_last [OF sp _ _ _ sl])
    show "py_item ?dat ''summary'' = Inr (VStr ''S1. S2.'')" by simp
    show "py_get ?dat ''title'' (VStr ''Isaac Newton'') = Inr (VStr ''isaac newton'')" by simp
    show "py_get ?dat ''sections'' (VList [])
      = Inr (VList [VDict [(''title'', VStr ''early life''), (''text'', VStr ''S3.'')],
                    VDict [(''title'', VStr ''legacy''), (''text'', VStr [])]])" by simp
  qed
  moreover have "paginate_spec (\<lambda>s. s) (\<lambda>t. butlast (demo_split t)) ''isaac newton''
               (VStr ''S1. S2.'') [(''early life'', VStr ''S3.''), (''legacy'', VStr [])]
               (VStr ''newton.jpg'')
      = [VDict [(''title'', VStr ''Isaac Newton''), (''summary'', VStr ''S1.''),
                (''img'', VStr ''newton.jpg'')]]"
    by (simp add: paginate_spec_def demo_split_def step_def demo_titles)
  ultimately have "snd (get_expanded_answer (\<lambda>s. s) demo_env demo_solver (VStr ''Isaac Newton'') VNone)
     = Inr (VList [VDict [(''title'', VStr ''Isaac Newton''), (''summary'', VStr ''S1.''),
                          (''img'', VStr ''newton.jpg'')]])"
    using d i by (simp add: get_expanded_answer_def snd_bnd)
  with s1 s2 d show ?thesis
    by (intro conjI)
qed

subsection \<open>The steps depend on the fetched data only\<close>

lemma section_steps_env:
  assumes "base_sentence_split E1 = base_sentence_split E2"
  shows "section_steps U E1 query img sl acc = section_steps U E2 query img sl acc"
  by (induction sl arbitrary: acc) (simp_all add: assms)

lemma expand_steps_env:
  assumes "base_sentence_split E1 = base_sentence_split E2"
  shows "expand_steps U E1 query dat img = expand_steps U E2 query dat img"
  by (simp add: expand_steps_def assms section_steps_env [OF assms])

lemma get_expanded_answer_fetched:
  assumes "snd (get_data E1 self q c) = snd (get_data E2 self q c)"
    and "snd (get_image E1 self q c) = snd (get_image E2 self q c)"
    and "base_sentence_split E1 = base_sentence_split E2"
  shows "snd (get_expanded_answer U E1 self q c) = snd (get_expanded_answer U E2 self q c)"
  by (simp add: get_expanded_answer_def snd_bnd assms expand_steps_env [OF assms(3)]
      split: sum.splits)

subsection \<open>The facade: resolution and the cursor\<close>

lemmas act_defs = sbind_def sret_def slift_def sget_def upd_def try_except_def emit_def
  speak_def speak_dialog_def set_context_def remove_context_def

lemma ask_the_wiki_state: "fst (ask_the_wiki E q s) = after_ask E q s"
  by (simp add: ask_the_wiki_def after_ask_def act_defs Let_def split: sum.splits prod.splits)

lemma py_len_nonneg: "py_len v = Inr n \<Longrightarrow> 0 \<le> n"
  by (cases v) auto

lemma cursor_ok_after_ask: "cursor_ok (after_ask E q s)"
  by (auto simp: cursor_ok_def after_ask_def Let_def py_len_nonneg split: sum.splits)

lemma cursor_ok_cong:
  "idx s' = idx s \<Longrightarrow> results s' = results s \<Longrightarrow> cursor_ok s' = cursor_ok s"
  by (simp add: cursor_ok_def split: sum.splits)

lemma py_index_len: "py_index v 0 = Inr x \<Longrightarrow> \<exists>n. py_len v = Inr n \<and> 1 \<le> n"
  by (cases v) (auto simp: list_index_def Suc_le_eq split: if_splits sum.splits)

lemma ask_the_wiki_answer:
  assumes "snd (ask_the_wiki E q s) = Inr (t, sm)" and "truthy sm"
  shows "\<exists>n. py_len (results (after_ask E q s)) = Inr n \<and> 1 \<le> n"
proof -
  from assms have "\<exists>x. py_index (results (after_ask E q s)) 0 = Inr x"
    by (auto simp: ask_the_wiki_def after_ask_def act_defs Let_def split: sum.splits prod.splits if_splits)
  then show ?thesis using py_index_len by blast
qed

lemma idx_after_ask [simp]: "idx (after_ask E q s) = 0"
  by (simp add: after_ask_def Let_def split: sum.splits)

lemma speak_result_cursor_ok:
  assumes "cursor_ok s"
  shows "cursor_ok (fst (speak_result E s))"
  using assms
  by (auto simp: speak_result_def display_wiki_entry_def cursor_ok_def act_defs Let_def
      split: sum.splits prod.splits if_splits)


lemma handle_search_cursor_ok:
  assumes "cursor_ok s"
  shows "cursor_ok (fst (handle_search E message s))"
proof (cases "py_item message ''query''")
  case (Inl e)
  then have "fst (handle_search E message s) = s\<lparr>out := out s @ [Show_animated_image ''ui/jumping.gif'']\<rparr>"
    by (simp add: handle_search_def act_defs)
  with assms show ?thesis by (simp add: cursor_ok_def split: sum.splits)
next
  case (Inr query)
  define s0 where "s0 = s\<lparr>out := out s @ [Show_animated_image ''ui/jumping.gif''],
      current_title := query,
      out := out s @ [Show_animated_image ''ui/jumping.gif'', Speak_dialog ''searching'' [(''query'', query)]],
      image_ref := VNone\<rparr>"
  have h: "handle_search E message s =
      sbind (ask_the_wiki E query) (\<lambda>(title, summary).
        if truthy summary then speak_result E else speak_dialog ''no_answer'' []) s0"
    by (simp add: handle_search_def s0_def Inr sbind_def sret_def slift_def sget_def upd_def
        emit_def speak_dialog_def)
  have c: "cursor_ok (fst (ask_the_wiki E query s0))"
    by (simp add: ask_the_wiki_state cursor_ok_after_ask)
  show ?thesis
  proof (cases "ask_the_wiki E query s0")
    case (Pair s1 r)
    with c have c1: "cursor_ok s1" by simp
    show ?thesis
    proof (cases r)
      case (Inl e)
      with Pair c1 show ?thesis by (simp add: h sbind_def)
    next
      case (Inr ts)
      obtain t sm where ts: "ts = (t, sm)" by (cases ts)
      show ?thesis
      proof (cases "truthy sm")
        case True
        with Pair Inr ts have "fst (handle_search E message s) = fst (speak_result E s1)"
          by (simp add: h sbind_def)
        with c1 show ?thesis by (simp add: speak_result_cursor_ok)
      next
        case False
        with Pair Inr ts have "fst (handle_search E message s) = s1\<lparr>out := out s1 @ [Speak_dialog ''no_answer'' []]\<rparr>"
          by (simp add: h sbind_def speak_dialog_def emit_def upd_def)
        with c1 show ?thesis by (simp add: cursor_ok_def split: sum.splits)
      qed
    qed
  qed
qed

lemma CQS_match_cursor_ok: "cursor_ok (fst (CQS_match_query_phrase E phrase s))"
proof (cases "ask_the_wiki E phrase s")
  case (Pair s1 r)
  then have s1: "s1 = after_ask E phrase s"
    using ask_the_wiki_state [of E phrase s] by simp
  then have c1: "cursor_ok s1" by (simp add: cursor_ok_after_ask)
  show ?thesis
  proof (cases r)
    case (Inl e)
    with Pair c1 show ?thesis by (simp add: CQS_match_query_phrase_def sbind_def)
  next
    case (Inr ts)
    obtain t sm where ts: "ts = (t, sm)" by (cases ts)
    show ?thesis
    proof (cases "truthy sm")
      case True
      with Pair Inr ts have "\<exists>n. py_len (results s1) = Inr n \<and> 1 \<le> n"
        using ask_the_wiki_answer [of E phrase s t sm] s1 by simp
      moreover from True Pair Inr ts
      have "fst (CQS_match_query_phrase E phrase s) = s1\<lparr>idx := idx s1 + 1\<rparr>"
        by (simp add: CQS_match_query_phrase_def sbind_def upd_def sget_def sret_def)
      ultimately show ?thesis
        using s1 by (auto simp: cursor_ok_def)
    next
      case False
      with Pair Inr ts have "fst (CQS_match_query_phrase E phrase s) = s1"
        by (simp add: CQS_match_query_phrase_def sbind_def sret_def)
      with c1 show ?thesis by simp
    qed
  qed
qed

lemma CQS_action_cursor_ok:
  assumes "cursor_ok s"
  shows "cursor_ok (fst (CQS_action E phrase dat s))"
  using assms
  by (auto simp: CQS_action_def display_wiki_entry_def cursor_ok_def act_defs Let_def
      split: sum.splits prod.splits if_splits)

lemma roulette_cursor_ok:
  assumes "cursor_ok s"
  shows "cursor_ok (fst (handle_wiki_roulette_query E message s))"
  using assms
  by (simp add: handle_wiki_roulette_query_def cursor_ok_def act_defs split: sum.splits)

lemma stop_cursor_ok:
  assumes "cursor_ok s"
  shows "cursor_ok (fst (stop s))"
  using assms by (simp add: stop_def cursor_ok_def act_defs split: sum.splits)

lemma init_cursor_ok:
  assumes "snd (WikipediaSkill_init E settings tag) = Inr s"
  shows "cursor_ok s"
proof -
  from assms have "idx s = 0 \<and> results s = VList []"
    by (auto simp: WikipediaSkill_init_def snd_bnd split: sum.splits option.splits list.splits)
  then show ?thesis by (simp add: cursor_ok_def)
qed

lemma reachable_cursor_ok: "reachable s \<Longrightarrow> cursor_ok s"
proof (induction rule: reachable.induct)
  case (r_init E settings tag s)
  then show ?case by (rule init_cursor_ok)
next
  case (r_search s E message)
  then show ?case by (simp add: handle_search_cursor_ok)
next
  case (r_roulette s E message)
  then show ?case by (simp add: roulette_cursor_ok)
next
  case (r_more s E message)
  then show ?case by (simp add: handle_tell_more_def speak_result_cursor_ok)
next
  case (r_cqs_match s E phrase)
  then show ?case by (simp add: CQS_match_cursor_ok)
next
  case (r_cqs_action s E phrase dat)
  then show ?case by (simp add: CQS_action_cursor_ok)
next
  case (r_stop s)
  then show ?case by (simp add: stop_cursor_ok)
qed

subsection \<open>The facade: speaking the result\<close>

lemma speak_result_exhausted:
  assumes "py_len (results s) = Inr n" and "idx s + 1 > n"
  shows "speak_result E s =
           (s\<lparr>out := out s @ [Speak_dialog ''thats all'' []],
              contexts := filter (\<lambda>kv. fst kv \<noteq> ''WikiKnows'') (contexts s),
              idx := 0\<rparr>, Inr ())"
  using assms by (simp add: speak_result_def act_defs)

lemma speak_result_chunk_exact:
  assumes "results s = VList chunks" and "0 \<le> idx s" and "idx s < int (length chunks)"
    and "chunks ! nat (idx s) = VDict d" and "map_of d ''summary'' = Some sm"
  shows "speak_result E s =
           (s\<lparr>out := out s @ Speak sm #
                  (if can_use_gui E \<and> truthy (image_ref s)
                   then [Show_image (image_ref s)
                           (case map_of d ''title'' of None \<Rightarrow> VStr ''Wikipedia'' | Some v \<Rightarrow> v)]
                   else []),
              contexts := dict_set (contexts s) ''WikiKnows'' (VStr ''wikipedia''),
              idx := idx s + 1\<rparr>, Inr ())"
  using assms
  by (simp add: speak_result_def display_wiki_entry_def act_defs list_index_def Let_def py_or_def)

lemma speak_result_chunk:
  assumes "results s = VList chunks" and "0 \<le> idx s" and "idx s < int (length chunks)"
    and "py_item (chunks ! nat (idx s)) ''summary'' = Inr sm"
  shows "\<exists>rest. speak_result E s =
           (s\<lparr>out := out s @ Speak sm # rest,
              contexts := dict_set (contexts s) ''WikiKnows'' (VStr ''wikipedia''),
              idx := idx s + 1\<rparr>, Inr ())
           \<and> Speak_dialog ''thats all'' [] \<notin> set rest"
proof -
  from assms(4) obtain d where d: "chunks ! nat (idx s) = VDict d" "map_of d ''summary'' = Some sm"
    by (cases "chunks ! nat (idx s)") (auto split: option.splits)
  let ?rest = "if can_use_gui E \<and> truthy (image_ref s)
                   then [Show_image (image_ref s)
                           (case map_of d ''title'' of None \<Rightarrow> VStr ''Wikipedia'' | Some v \<Rightarrow> v)]
                   else []"
  have "speak_result E s =
           (s\<lparr>out := out s @ Speak sm # ?rest,
              contexts := dict_set (contexts s) ''WikiKnows'' (VStr ''wikipedia''),
              idx := idx s + 1\<rparr>, Inr ())"
    using assms(1-3) d by (rule speak_result_chunk_exact)
  moreover have "Speak_dialog ''thats all'' [] \<notin> set ?rest"
    by simp
  ultimately show ?thesis by blast
qed

lemma map_of_filter_key: "map_of (filter (\<lambda>kv. fst kv \<noteq> k) d) k = None"
  by (induction d) auto

lemma summaries_nth:
  assumes "map f chunks = map Inr sms" and "k < length chunks"
  shows "f (chunks ! k) = Inr (sms ! k)"
  using assms by (metis length_map nth_map)

lemma tell_more_state:
  assumes "results s = VList chunks" and "idx s = int i"
    and "map (\<lambda>c. py_item c ''summary'') chunks = map Inr sms"
    and "i + n \<le> length chunks"
  shows "results (tell_more E n s) = VList chunks \<and> idx (tell_more E n s) = int (i + n)"
  using assms(4)
proof (induction n)
  case 0
  with assms show ?case by simp
next
  case (Suc n)
  then have r: "results (tell_more E n s) = VList chunks"
    and i: "idx (tell_more E n s) = int (i + n)"
    and n: "i + n < length chunks"
    by simp_all
  from assms(3) n have "py_item (chunks ! (i + n)) ''summary'' = Inr (sms ! (i + n))"
    by (rule summaries_nth)
  with i n have p: "0 \<le> idx (tell_more E n s)" "idx (tell_more E n s) < int (length chunks)"
    "py_item (chunks ! nat (idx (tell_more E n s))) ''summary'' = Inr (sms ! (i + n))"
    by (simp_all del: of_nat_add)
  from speak_result_chunk [OF r p, of E]
  obtain rest where "speak_result E (tell_more E n s) =
      ((tell_more E n s)\<lparr>out := out (tell_more E n s) @ Speak (sms ! (i + n)) # rest,
         contexts := dict_set (contexts (tell_more E n s)) ''WikiKnows'' (VStr ''wikipedia''),
         idx := idx (tell_more E n s) + 1\<rparr>, Inr ())"
    by blast
  with r i show ?case
    by (simp add: handle_tell_more_def)
qed

text \<open>
  From a state with \<open>N\<close> chunks and the cursor at 1: the \<open>n\<close>-th "tell me more" request,
  \<open>n < N\<close>, speaks chunk \<open>n\<close>; the \<open>N\<close>-th says "thats all".
\<close>

lemma tell_more_chunk:
  assumes "results s1 = VList chunks" and "idx s1 = 1"
    and "map (\<lambda>c. py_item c ''summary'') chunks = map Inr sms"
    and "0 < n" and "n < length chunks"
  shows "let b = tell_more E (n - 1) s1; a = fst (handle_tell_more E m b) in
           snd (handle_tell_more E m b) = Inr () \<and>
           (\<exists>rest. emitted b a = Speak (sms ! n) # rest
                   \<and> Speak_dialog ''thats all'' [] \<notin> set rest) \<and>
           idx a = int n + 1"
proof -
  define b where "b = tell_more E (n - 1) s1"
  from assms(4,5) have "1 + (n - 1) \<le> length chunks" and k: "1 + (n - 1) = n" by arith+
  with assms(1-3) have b: "results b = VList chunks" "idx b = int n"
    unfolding b_def using tell_more_state [of s1 chunks 1 sms "n - 1" E] by simp_all
  from assms(3,5) have "py_item (chunks ! n) ''summary'' = Inr (sms ! n)"
    by (rule summaries_nth)
  with b assms(5) have p: "0 \<le> idx b" "idx b < int (length chunks)"
    "py_item (chunks ! nat (idx b)) ''summary'' = Inr (sms ! n)"
    by simp_all
  from speak_result_chunk [OF b(1) p, of E]
  obtain rest where r: "speak_result E b =
           (b\<lparr>out := out b @ Speak (sms ! n) # rest,
              contexts := dict_set (contexts b) ''WikiKnows'' (VStr ''wikipedia''),
              idx := idx b + 1\<rparr>, Inr ())"
      and t: "Speak_dialog ''thats all'' [] \<notin> set rest"
    by auto
  with b(2) show ?thesis
    unfolding Let_def b_def [symmetric] by (auto simp: emitted_def handle_tell_more_def)
qed

lemma tell_more_exhausted:
  assumes "results s1 = VList chunks" and "idx s1 = 1"
    and "map (\<lambda>c. py_item c ''summary'') chunks = map Inr sms"
    and "chunks \<noteq> []"
  shows "let b = tell_more E (length chunks - 1) s1; a = fst (handle_tell_more E m b) in
           snd (handle_tell_more E m b) = Inr () \<and>
           emitted b a = [Speak_dialog ''thats all'' []] \<and>
           idx a = 0 \<and>
           map_of (contexts a) ''WikiKnows'' = None"
proof -
  define b where "b = tell_more E (length chunks - 1) s1"
  from assms(4) have "1 + (length chunks - 1) \<le> length chunks"
    and k: "1 + (length chunks - 1) = length chunks"
    by (simp_all add: Suc_leI)
  with assms(1-3) have b: "results b = VList chunks" "idx b = int (length chunks)"
    unfolding b_def using tell_more_state [of s1 chunks 1 sms "length chunks - 1" E] by simp_all
  then have "speak_result E b =
           (b\<lparr>out := out b @ [Speak_dialog ''thats all'' []],
              contexts := filter (\<lambda>kv. fst kv \<noteq> ''WikiKnows'') (contexts b),
              idx := 0\<rparr>, Inr ())"
    by (intro speak_result_exhausted [where n = "int (length chunks)"]) simp_all
  then show ?thesis
    unfolding Let_def b_def [symmetric]
    by (simp add: emitted_def map_of_filter_key handle_tell_more_def)
qed

text \<open>
  A resolution that finds chunks, the first with a summary to speak: \<open>handle_search\<close>
  speaks chunk 0 itself, a common-query match counts it as spoken; both leave the cursor
  at 1.
\<close>

lemma first_chunk:
  assumes "map (\<lambda>c. py_item c ''summary'') chunks = map Inr sms" and "chunks \<noteq> []"
  shows "\<exists>d cs. chunks = VDict d # cs \<and> map_of d ''summary'' = Some (sms ! 0)"
proof -
  from assms(2) obtain c cs where c: "chunks = c # cs" by (cases chunks) auto
  with assms(1) have "py_item c ''summary'' = Inr (sms ! 0)"
    using summaries_nth [of "\<lambda>c. py_item c ''summary''" chunks sms 0] by simp
  then obtain d where "c = VDict d" "map_of d ''summary'' = Some (sms ! 0)"
    by (cases c) (auto split: option.splits)
  with c show ?thesis by blast
qed

lemma handle_search_answered:
  assumes "py_item message ''query'' = Inr q"
    and "base_long_answer E q (self_lang s) = Inr (VList chunks)"
    and "snd (get_image E (wiki s) q VNone) = Inr img"
    and "map (\<lambda>c. py_item c ''summary'') chunks = map Inr sms"
    and "chunks \<noteq> []" and "truthy (sms ! 0)"
  shows "snd (handle_search E message s) = Inr ()"
    and "results (fst (handle_search E message s)) = VList chunks"
    and "idx (fst (handle_search E message s)) = 1"
    and "\<exists>pre rest. emitted s (fst (handle_search E message s)) = pre @ Speak (sms ! 0) # rest"
proof -
  from assms(4,5) obtain d cs where c: "chunks = VDict d # cs" "map_of d ''summary'' = Some (sms ! 0)"
    using first_chunk by blast
  let ?rest = "if can_use_gui E \<and> truthy img
               then [Show_image img (case map_of d ''title'' of None \<Rightarrow> VStr ''Wikipedia'' | Some v \<Rightarrow> v)]
               else []"
  have h: "snd (handle_search E message s) = Inr () \<and>
           results (fst (handle_search E message s)) = VList chunks \<and>
           idx (fst (handle_search E message s)) = 1 \<and>
           out (fst (handle_search E message s)) =
             out s @ [Show_animated_image ''ui/jumping.gif'',
                      Speak_dialog ''searching'' [(''query'', q)]] @ Speak (sms ! 0) # ?rest"
    using assms(1-3,6) c
    by (simp add: handle_search_def ask_the_wiki_def speak_result_def display_wiki_entry_def
        act_defs list_index_def Let_def py_or_def)
  then show "snd (handle_search E message s) = Inr ()"
    and "results (fst (handle_search E message s)) = VList chunks"
    and "idx (fst (handle_search E message s)) = 1"
    by simp_all
  from h have "emitted s (fst (handle_search E message s)) =
      [Show_animated_image ''ui/jumping.gif'', Speak_dialog ''searching'' [(''query'', q)]]
      @ Speak (sms ! 0) # ?rest"
    by (simp add: emitted_def)
  then show "\<exists>pre rest. emitted s (fst (handle_search E message s)) = pre @ Speak (sms ! 0) # rest"
    by blast
qed

lemma CQS_match_answered:
  assumes "base_long_answer E q (self_lang s) = Inr (VList chunks)"
    and "snd (get_image E (wiki s) q VNone) = Inr img"
    and "map (\<lambda>c. py_item c ''summary'') chunks = map Inr sms"
    and "chunks \<noteq> []" and "truthy (sms ! 0)"
  shows "results (fst (CQS_match_query_phrase E q s)) = VList chunks"
    and "idx (fst (CQS_match_query_phrase E q s)) = 1"
proof -
  from assms(3,4) obtain d cs where c: "chunks = VDict d # cs" "map_of d ''summary'' = Some (sms ! 0)"
    using first_chunk by blast
  have "results (fst (CQS_match_query_phrase E q s)) = VList chunks \<and>
        idx (fst (CQS_match_query_phrase E q s)) = 1"
    using assms(1,2,5) c
    by (simp add: CQS_match_query_phrase_def ask_the_wiki_def act_defs list_index_def Let_def)
  then show "results (fst (CQS_match_query_phrase E q s)) = VList chunks"
    and "idx (fst (CQS_match_query_phrase E q s)) = 1"
    by simp_all
qed

text \<open>
  C1, as the code has it. A successful resolution of \<open>N\<close> chunks delivers chunk 0 itself
  (\<open>handle_search\<close> speaks it, a common-query match counts it as spoken) and leaves the
  cursor at 1. From there the \<open>n\<close>-th "tell me more" request, for \<open>1 \<le> n \<le> N - 1\<close>, speaks
  the summary of chunk \<open>n\<close>, does not say "thats all", and leaves the cursor at \<open>n + 1\<close>; so
  the last chunk \<open>N - 1\<close> is spoken by request \<open>N - 1\<close>. The \<open>N\<close>-th request says
  "thats all" and nothing else, puts the cursor back to 0 and removes the marker
  \<open>WikiKnows\<close>.
\<close>

theorem C1_exhaustion_boundary:
  assumes "py_item message ''query'' = Inr q"
    and "base_long_answer E q (self_lang s) = Inr (VList chunks)"
    and "snd (get_image E (wiki s) q VNone) = Inr img"
    and "map (\<lambda>c. py_item c ''summary'') chunks = map Inr sms"
    and "chunks \<noteq> []" and "truthy (sms ! 0)"
    and "s1 = fst (handle_search E message s) \<or> s1 = fst (CQS_match_query_phrase E q s)"
  shows "(\<exists>pre rest. emitted s (fst (handle_search E message s)) = pre @ Speak (sms ! 0) # rest)
       \<and> results s1 = VList chunks \<and> idx s1 = 1
       \<and> (0 < n \<and> n < length chunks \<longrightarrow>
            (let b = tell_more E' (n - 1) s1; a = fst (handle_tell_more E' m b) in
               snd (handle_tell_more E' m b) = Inr () \<and>
               (\<exists>rest. emitted b a = Speak (sms ! n) # rest
                       \<and> Speak_dialog ''thats all'' [] \<notin> set rest) \<and>
               idx a = int n + 1))
       \<and> (let b = tell_more E' (length chunks - 1) s1; a = fst (handle_tell_more E' m b) in
            snd (handle_tell_more E' m b) = Inr () \<and>
            emitted b a = [Speak_dialog ''thats all'' []] \<and>
            idx a = 0 \<and>
            map_of (contexts a) ''WikiKnows'' = None)"
proof -
  have r: "results s1 = VList chunks" and i: "idx s1 = 1"
    using assms(7) handle_search_answered(2,3) [OF assms(1-6)] CQS_match_answered [OF assms(2-6)]
    by auto
  have "\<exists>pre rest. emitted s (fst (handle_search E message s)) = pre @ Speak (sms ! 0) # rest"
    using assms(1-6) by (rule handle_search_answered(4))
  moreover have "0 < n \<and> n < length chunks \<longrightarrow>
            (let b = tell_more E' (n - 1) s1; a = fst (handle_tell_more E' m b) in
               snd (handle_tell_more E' m b) = Inr () \<and>
               (\<exists>rest. emitted b a = Speak (sms ! n) # rest
                       \<and> Speak_dialog ''thats all'' [] \<notin> set rest) \<and>
               idx a = int n + 1)"
    using tell_more_chunk [OF r i assms(4)] by blast
  moreover have "let b = tell_more E' (length chunks - 1) s1; a = fst (handle_tell_more E' m b) in
            snd (handle_tell_more E' m b) = Inr () \<and>
            emitted b a = [Speak_dialog ''thats all'' []] \<and>
            idx a = 0 \<and>
            map_of (contexts a) ''WikiKnows'' = None"
    using r i assms(4,5) by (rule tell_more_exhausted)
  ultimately show ?thesis
    using r i by blast
qed

lemma newton_steps_summaries:
  "map (\<lambda>c. py_item c ''summary'') newton_steps = map Inr [VStr ''S1.'', VStr ''S2.'', VStr ''S3.'']"
  by (simp add: newton_steps_def step_def)

lemma demo_answer:
  "py_item (VDict [(''query'', VStr ''who is Isaac Newton'')]) ''query'' = Inr (VStr ''who is Isaac Newton'')"
  "base_long_answer demo_env (VStr ''who is Isaac Newton'') (self_lang demo_skill) = Inr (VList newton_steps)"
  "snd (get_image demo_env (wiki demo_skill) (VStr ''who is Isaac Newton'') VNone) = Inr (VStr ''newton.jpg'')"
  "newton_steps \<noteq> []" "truthy ([VStr ''S1.'', VStr ''S2.'', VStr ''S3.''] ! 0)" "length newton_steps = 3"
  by (simp_all add: demo_env_def demo_skill_def demo_solver_def newton_steps_def newton_page_def
      get_image_def extract_and_search_def extract_keyword_def request_lang_def py_or_def
      list_index_def Let_def)

lemma demo_search:
  "handle_search demo_env (VDict [(''query'', VStr ''who is Isaac Newton'')]) demo_skill =
     (demo_skill\<lparr>idx := 1, results := VList newton_steps, image_ref := VStr ''newton.jpg'',
        current_title := VStr ''who is Isaac Newton'',
        contexts := [(''WikiKnows'', VStr ''wikipedia'')],
        out := [Show_animated_image ''ui/jumping.gif'',
                Speak_dialog ''searching'' [(''query'', VStr ''who is Isaac Newton'')],
                Speak (VStr ''S1.''),
                Show_image (VStr ''newton.jpg'') (VStr ''Isaac Newton'')]\<rparr>, Inr ())"
  by (simp add: handle_search_def ask_the_wiki_def speak_result_def display_wiki_entry_def act_defs
      get_image_def extract_and_search_def extract_keyword_def request_lang_def
      demo_env_def demo_skill_def demo_solver_def newton_steps_def newton_page_def step_def
      py_or_def list_index_def Let_def)


text \<open>
  The theorem on the search for "who is Isaac Newton", which finds the three sample
  steps: the search speaks "S1.", the second request speaks "S3.", the third says
  "thats all".
\<close>

theorem C1_exhaustion_boundary_witness:
  "base_long_answer demo_env (VStr ''who is Isaac Newton'') (self_lang demo_skill) = Inr (VList newton_steps)
   \<and> length newton_steps = 3
   \<and> idx (fst (handle_search demo_env (VDict [(''query'', VStr ''who is Isaac Newton'')]) demo_skill)) = 1
   \<and> (\<exists>rest. emitted
         (tell_more demo_env 1
            (fst (handle_search demo_env (VDict [(''query'', VStr ''who is Isaac Newton'')]) demo_skill)))
         (fst (handle_tell_more demo_env VNone
            (tell_more demo_env 1
               (fst (handle_search demo_env (VDict [(''query'', VStr ''who is Isaac Newton'')]) demo_skill)))))
        = Speak (VStr ''S3.'') # rest)
   \<and> emitted
         (tell_more demo_env 2
            (fst (handle_search demo_env (VDict [(''query'', VStr ''who is Isaac Newton'')]) demo_skill)))
         (fst (handle_tell_more demo_env VNone
            (tell_more demo_env 2
               (fst (handle_search demo_env (VDict [(''query'', VStr ''who is Isaac Newton'')]) demo_skill)))))
        = [Speak_dialog ''thats all'' []]"
proof -
  let ?s1 = "fst (handle_search demo_env (VDict [(''query'', VStr ''who is Isaac Newton'')]) demo_skill)"
  have s1: "?s1 = ?s1 \<or> ?s1 = fst (CQS_match_query_phrase demo_env (VStr ''who is Isaac Newton'') demo_skill)"
    by simp
  note th = C1_exhaustion_boundary [OF demo_answer(1-3) newton_steps_summaries demo_answer(4,5) s1,
      where n = 2 and E' = demo_env and m = VNone]
  from th have "idx ?s1 = 1" by blast
  moreover from th demo_answer(6)
  have "\<exists>rest. emitted (tell_more demo_env 1 ?s1)
          (fst (handle_tell_more demo_env VNone (tell_more demo_env 1 ?s1))) = Speak (VStr ''S3.'') # rest"
    by (auto simp: Let_def)
  moreover from th demo_answer(6)
  have "emitted (tell_more demo_env 2 ?s1)
          (fst (handle_tell_more demo_env VNone (tell_more demo_env 2 ?s1))) = [Speak_dialog ''thats all'' []]"
    by (auto simp: Let_def)
  ultimately show ?thesis
    using demo_answer(2,6) by (intro conjI)
qed

text \<open>
  C1 as stated fails. After the search for "who is Isaac Newton" has found \<open>N = 3\<close>
  chunks, the second "tell me more" request already speaks the last chunk, the third
  (the \<open>N\<close>-th) says "thats all" where the claim has chunk \<open>N - 1\<close>, and the fourth (the
  \<open>N + 1\<close>-th) speaks chunk 0 again where the claim has the exhaustion signal.
\<close>

theorem C1_request_count_counterexample:
  "results (fst (handle_search demo_env (VDict [(''query'', VStr ''who is Isaac Newton'')]) demo_skill))
     = VList newton_steps
   \<and> length newton_steps = 3
   \<and> emitted
        (tell_more demo_env 2
           (fst (handle_search demo_env (VDict [(''query'', VStr ''who is Isaac Newton'')]) demo_skill)))
        (tell_more demo_env 3
           (fst (handle_search demo_env (VDict [(''query'', VStr ''who is Isaac Newton'')]) demo_skill)))
     = [Speak_dialog ''thats all'' []]
   \<and> emitted
        (tell_more demo_env 3
           (fst (handle_search demo_env (VDict [(''query'', VStr ''who is Isaac Newton'')]) demo_skill)))
        (tell_more demo_env 4
           (fst (handle_search demo_env (VDict [(''query'', VStr ''who is Isaac Newton'')]) demo_skill)))
     = [Speak (VStr ''S1.''), Show_image (VStr ''newton.jpg'') (VStr ''Isaac Newton'')]"
proof -
  let ?s1 = "fst (handle_search demo_env (VDict [(''query'', VStr ''who is Isaac Newton'')]) demo_skill)"
  have r: "results ?s1 = VList newton_steps" and i: "idx ?s1 = 1"
    using handle_search_answered(2,3) [OF demo_answer(1-3) newton_steps_summaries demo_answer(4,5)]
    by simp_all
  have img: "image_ref ?s1 = VStr ''newton.jpg''"
    by (simp add: demo_search)
  have e3: "tell_more demo_env 3 ?s1 = fst (handle_tell_more demo_env VNone (tell_more demo_env 2 ?s1))"
    by (simp add: numeral_3_eq_3 numeral_2_eq_2)
  from tell_more_exhausted [OF r i newton_steps_summaries demo_answer(4), of demo_env VNone]
  have x: "emitted (tell_more demo_env 2 ?s1) (tell_more demo_env 3 ?s1) = [Speak_dialog ''thats all'' []]"
    and i3: "idx (tell_more demo_env 3 ?s1) = 0"
    by (simp_all add: Let_def demo_answer(6) e3)
  have r2: "results (tell_more demo_env 2 ?s1) = VList newton_steps"
    using tell_more_state [OF r, of 1 "[VStr ''S1.'', VStr ''S2.'', VStr ''S3.'']" 2 demo_env]
      i newton_steps_summaries demo_answer(6)
    by simp
  have keep: "\<And>b. results (fst (handle_tell_more demo_env VNone b)) = results b"
    by (auto simp: handle_tell_more_def speak_result_def display_wiki_entry_def act_defs Let_def
        split: sum.splits if_splits)
  have keep_img: "\<And>b. image_ref (fst (handle_tell_more demo_env VNone b)) = image_ref b"
    by (auto simp: handle_tell_more_def speak_result_def display_wiki_entry_def act_defs Let_def
        split: sum.splits if_splits)
  have r3: "results (tell_more demo_env 3 ?s1) = VList newton_steps"
    by (simp add: e3 keep r2)
  have img3: "image_ref (tell_more demo_env 3 ?s1) = VStr ''newton.jpg''"
    by (simp add: numeral_3_eq_3 keep_img img)
  have e4: "tell_more demo_env 4 ?s1 = fst (handle_tell_more demo_env VNone (tell_more demo_env 3 ?s1))"
    by (simp add: eval_nat_numeral)
  define b3 where "b3 = tell_more demo_env 3 ?s1"
  have gui: "can_use_gui demo_env"
    by (simp add: demo_env_def)
  have "speak_result demo_env b3 =
      (b3\<lparr>out := out b3 @ Speak (VStr ''S1.'') #
             (if can_use_gui demo_env \<and> truthy (image_ref b3)
              then [Show_image (image_ref b3)
                      (case map_of [(''title'', VStr ''Isaac Newton''), (''summary'', VStr ''S1.''),
                                    (''img'', VStr ''newton.jpg'')] ''title'' of
                         None \<Rightarrow> VStr ''Wikipedia'' | Some v \<Rightarrow> v)]
              else []),
          contexts := dict_set (contexts b3) ''WikiKnows'' (VStr ''wikipedia''),
          idx := idx b3 + 1\<rparr>, Inr ())"
    by (rule speak_result_chunk_exact [OF r3 [folded b3_def]])
       (simp_all add: i3 [folded b3_def] newton_steps_def step_def)
  then have "emitted b3 (fst (handle_tell_more demo_env VNone b3))
     = [Speak (VStr ''S1.''), Show_image (VStr ''newton.jpg'') (VStr ''Isaac Newton'')]"
    by (simp add: handle_tell_more_def emitted_def img3 [folded b3_def] gui)
  then have "emitted (tell_more demo_env 3 ?s1) (tell_more demo_env 4 ?s1)
     = [Speak (VStr ''S1.''), Show_image (VStr ''newton.jpg'') (VStr ''Isaac Newton'')]"
    unfolding b3_def e4 .
  with r x demo_answer(6) show ?thesis
    by (intro conjI)
qed

subsection \<open>Determinism of resolution\<close>

lemma results_after_ask:
  "results (after_ask E q s) = (case base_long_answer E q (self_lang s) of Inr r \<Rightarrow> r | Inl e \<Rightarrow> VNone)"
  by (simp add: after_ask_def Let_def split: sum.splits)

lemma image_after_ask:
  "image_ref (after_ask E q s) =
     (case snd (get_image E (wiki s) q VNone) of Inr img \<Rightarrow> img | Inl e \<Rightarrow> image_ref s)"
  by (simp add: after_ask_def Let_def split: sum.splits)

lemma fixed_after_ask [simp]:
  "wiki (after_ask E q s) = wiki s" "self_lang (after_ask E q s) = self_lang s"
  by (simp_all add: after_ask_def Let_def split: sum.splits)

lemma solver_cache_irrelevant:
  assumes "default_lang self' = default_lang self"
  shows "get_expanded_answer U E self' q c = get_expanded_answer U E self q c"
proof -
  have r: "\<And>x. request_lang self' x = request_lang self x"
    unfolding request_lang_def assms by (rule refl)
  have "get_data E self' q c = get_data E self q c"
    by (simp add: get_data_def r)
  moreover have "get_image E self' q c = get_image E self q c"
    by (simp add: get_image_def extract_and_search_def r)
  ultimately show ?thesis
    by (simp add: get_expanded_answer_def)
qed

text \<open>
  C9. The steps of \<open>get_expanded_answer\<close> are a function of what was fetched: two
  worlds that give the same answer data, the same image and the same sentence splits give
  the same steps, and the solver's cache plays no part. At the facade, resolving the
  same query twice in a row leaves the same results and the same cursor as resolving it
  once, and the results do not depend on the pagination state before.
\<close>

theorem C9_resolution_deterministic:
  assumes "snd (get_data E1 self q c) = snd (get_data E2 self q c)"
    and "snd (get_image E1 self q c) = snd (get_image E2 self q c)"
    and "base_sentence_split E1 = base_sentence_split E2"
  shows "snd (get_expanded_answer U E1 self q c) = snd (get_expanded_answer U E2 self q c)
       \<and> (default_lang self' = default_lang self \<longrightarrow>
            get_expanded_answer U E1 self' q c = get_expanded_answer U E1 self q c)
       \<and> results (fst (ask_the_wiki E phrase (fst (ask_the_wiki E phrase s)))) = results (fst (ask_the_wiki E phrase s))
       \<and> idx (fst (ask_the_wiki E phrase (fst (ask_the_wiki E phrase s)))) = idx (fst (ask_the_wiki E phrase s))
       \<and> (wiki s' = wiki s \<and> self_lang s' = self_lang s \<longrightarrow>
            results (fst (ask_the_wiki E phrase s')) = results (fst (ask_the_wiki E phrase s)))"
proof (intro conjI impI)
  show "snd (get_expanded_answer U E1 self q c) = snd (get_expanded_answer U E2 self q c)"
    using assms by (rule get_expanded_answer_fetched)
next
  assume "default_lang self' = default_lang self"
  then show "get_expanded_answer U E1 self' q c = get_expanded_answer U E1 self q c"
    by (rule solver_cache_irrelevant)
next
  show "results (fst (ask_the_wiki E phrase (fst (ask_the_wiki E phrase s)))) = results (fst (ask_the_wiki E phrase s))"
    by (simp add: ask_the_wiki_state results_after_ask)
next
  show "idx (fst (ask_the_wiki E phrase (fst (ask_the_wiki E phrase s)))) = idx (fst (ask_the_wiki E phrase s))"
    by (simp add: ask_the_wiki_state)
next
  assume "wiki s' = wiki s \<and> self_lang s' = self_lang s"
  then show "results (fst (ask_the_wiki E phrase s')) = results (fst (ask_the_wiki E phrase s))"
    by (simp add: ask_the_wiki_state results_after_ask)
qed

text \<open>
  The theorem on two sample worlds that differ only in the screen and in the base class's
  own answers.
\<close>

theorem C9_resolution_deterministic_witness:
  "snd (get_data demo_env demo_solver (VStr ''Isaac Newton'') VNone)
     = snd (get_data silent_env demo_solver (VStr ''Isaac Newton'') VNone)
   \<and> snd (get_image demo_env demo_solver (VStr ''Isaac Newton'') VNone)
     = snd (get_image silent_env demo_solver (VStr ''Isaac Newton'') VNone)
   \<and> base_sentence_split demo_env = base_sentence_split silent_env
   \<and> snd (get_expanded_answer (\<lambda>s. s) demo_env demo_solver (VStr ''Isaac Newton'') VNone)
     = snd (get_expanded_answer (\<lambda>s. s) silent_env demo_solver (VStr ''Isaac Newton'') VNone)
   \<and> results (fst (ask_the_wiki demo_env (VStr ''who is Isaac Newton'')
                (fst (ask_the_wiki demo_env (VStr ''who is Isaac Newton'') demo_skill))))
     = VList newton_steps"
proof -
  have d: "snd (get_data demo_env demo_solver (VStr ''Isaac Newton'') VNone)
     = snd (get_data silent_env demo_solver (VStr ''Isaac Newton'') VNone)"
    by (simp add: get_data_def silent_env_def demo_env_def demo_solver_def newton_page_def
        request_lang_def py_or_def Let_def)
  have i: "snd (get_image demo_env demo_solver (VStr ''Isaac Newton'') VNone)
     = snd (get_image silent_env demo_solver (VStr ''Isaac Newton'') VNone)"
    by (simp add: get_image_def extract_and_search_def extract_keyword_def silent_env_def
        demo_env_def demo_solver_def newton_page_def request_lang_def py_or_def Let_def
        list_index_def)
  have sp: "base_sentence_split demo_env = base_sentence_split silent_env"
    by (simp add: silent_env_def)
  have r: "results (fst (ask_the_wiki demo_env (VStr ''who is Isaac Newton'') demo_skill)) = VList newton_steps"
    by (simp add: ask_the_wiki_state results_after_ask demo_env_def)
  have e: "snd (get_expanded_answer (\<lambda>s. s) demo_env demo_solver (VStr ''Isaac Newton'') VNone)
     = snd (get_expanded_answer (\<lambda>s. s) silent_env demo_solver (VStr ''Isaac Newton'') VNone)"
    and t: "results (fst (ask_the_wiki demo_env (VStr ''who is Isaac Newton'')
                (fst (ask_the_wiki demo_env (VStr ''who is Isaac Newton'') demo_skill))))
     = results (fst (ask_the_wiki demo_env (VStr ''who is Isaac Newton'') demo_skill))"
    using C9_resolution_deterministic [OF d i sp, where E = demo_env and U = "\<lambda>s. s"
        and phrase = "VStr ''who is Isaac Newton''" and s = demo_skill]
    by blast+
  from t r have "results (fst (ask_the_wiki demo_env (VStr ''who is Isaac Newton'')
                (fst (ask_the_wiki demo_env (VStr ''who is Isaac Newton'') demo_skill))))
     = VList newton_steps"
    by (rule trans)
  with d i sp e show ?thesis
    by (intro conjI)
qed

subsection \<open>The cursor invariant\<close>

lemma speak_result_advances:
  assumes "py_len (results s) = Inr n" and "idx s + 1 \<le> n" and "snd (speak_result E s) = Inr ()"
  shows "idx (fst (speak_result E s)) = idx s + 1"
  using assms
  by (auto simp: speak_result_def display_wiki_entry_def act_defs Let_def
      split: sum.splits prod.splits if_splits)

lemma speak_result_raises:
  assumes "snd (speak_result E s) = Inl e"
  shows "idx (fst (speak_result E s)) = idx s \<and> results (fst (speak_result E s)) = results s"
  using assms
  by (auto simp: speak_result_def display_wiki_entry_def act_defs Let_def
      split: sum.splits prod.splits if_splits)

text \<open>
  C7. In every state a conversation can reach, the cursor is at least 0 and at most the
  number of chunks (and it is 0 when there is no chunk list). Resolution puts it to 0, a
  chunk that is spoken advances it by exactly one, exhaustion puts it back to 0, and
  \<open>speak_result\<close>, \<open>handle_search\<close> and \<open>CQS_match_query_phrase\<close> keep the bound, also
  when they raise.
\<close>

theorem C7_cursor_invariant:
  "(reachable s \<longrightarrow> cursor_ok s)
   \<and> (reachable s \<and> results s = VList chunks \<longrightarrow> 0 \<le> idx s \<and> idx s \<le> int (length chunks))
   \<and> idx (fst (ask_the_wiki E q s)) = 0
   \<and> (cursor_ok s \<longrightarrow> cursor_ok (fst (speak_result E s)))
   \<and> (py_len (results s) = Inr n \<and> idx s + 1 \<le> n \<and> snd (speak_result E s) = Inr () \<longrightarrow>
        idx (fst (speak_result E s)) = idx s + 1)
   \<and> (py_len (results s) = Inr n \<and> idx s + 1 > n \<longrightarrow> idx (fst (speak_result E s)) = 0)
   \<and> (cursor_ok s \<longrightarrow> cursor_ok (fst (handle_search E message s)))
   \<and> cursor_ok (fst (CQS_match_query_phrase E phrase s))"
proof (intro conjI impI)
  assume "reachable s"
  then show "cursor_ok s" by (rule reachable_cursor_ok)
next
  assume a: "reachable s \<and> results s = VList chunks"
  then have "cursor_ok s" using reachable_cursor_ok by blast
  with a show "0 \<le> idx s" and "idx s \<le> int (length chunks)"
    by (simp_all add: cursor_ok_def)
next
  show "idx (fst (ask_the_wiki E q s)) = 0"
    by (simp add: ask_the_wiki_state)
next
  assume "cursor_ok s"
  then show "cursor_ok (fst (speak_result E s))" by (rule speak_result_cursor_ok)
next
  assume "py_len (results s) = Inr n \<and> idx s + 1 \<le> n \<and> snd (speak_result E s) = Inr ()"
  then show "idx (fst (speak_result E s)) = idx s + 1"
    using speak_result_advances by blast
next
  assume "py_len (results s) = Inr n \<and> idx s + 1 > n"
  then show "idx (fst (speak_result E s)) = 0"
    using speak_result_exhausted [of s n E] by simp
next
  assume "cursor_ok s"
  then show "cursor_ok (fst (handle_search E message s))" by (rule handle_search_cursor_ok)
next
  show "cursor_ok (fst (CQS_match_query_phrase E phrase s))" by (rule CQS_match_cursor_ok)
qed

lemma demo_init: "snd (WikipediaSkill_init demo_env [] ''en-us'') = Inr demo_skill"
  by (simp add: WikipediaSkill_init_def WikipediaSolver_init_def demo_env_def demo_skill_def
      demo_solver_def py_or_def)

text \<open>
  The theorem on the state after the skill is built and "who is Isaac Newton" is
  searched: three chunks, cursor at 1.
\<close>

theorem C7_cursor_invariant_witness:
  "snd (WikipediaSkill_init demo_env [] ''en-us'') = Inr demo_skill
   \<and> results (fst (handle_search demo_env (VDict [(''query'', VStr ''who is Isaac Newton'')]) demo_skill))
     = VList newton_steps
   \<and> length newton_steps = 3
   \<and> idx (fst (handle_search demo_env (VDict [(''query'', VStr ''who is Isaac Newton'')]) demo_skill)) = 1
   \<and> 0 \<le> idx (fst (handle_search demo_env (VDict [(''query'', VStr ''who is Isaac Newton'')]) demo_skill))
   \<and> idx (fst (handle_search demo_env (VDict [(''query'', VStr ''who is Isaac Newton'')]) demo_skill))
       \<le> int (length newton_steps)"
proof -
  let ?s = "fst (handle_search demo_env (VDict [(''query'', VStr ''who is Isaac Newton'')]) demo_skill)"
  have "reachable demo_skill"
    using demo_init by (rule r_init)
  then have r: "reachable ?s"
    by (rule r_search)
  have res: "results ?s = VList newton_steps" and i: "idx ?s = 1"
    by (simp_all add: demo_search)
  from C7_cursor_invariant [where s = ?s and chunks = newton_steps] r res
  have "0 \<le> idx ?s" and "idx ?s \<le> int (length newton_steps)"
    by blast+
  moreover have "length newton_steps = 3"
    by (simp add: newton_steps_def)
  ultimately show ?thesis
    using demo_init res i by (intro conjI)
qed

text \<open>
  A failure of the long answer alone is absorbed: it is logged and the "no answer"
  dialog is spoken, provided fetching the image returns.
\<close>

lemma upstream_failure_absorbed:
  assumes "py_item message ''query'' = Inr q"
    and "base_long_answer E q (self_lang s) = Inl e"
    and "snd (get_image E (wiki s) q VNone) = Inr img"
  shows "snd (handle_search E message s) = Inr ()"
    and "out (fst (handle_search E message s)) =
           out s @ [Show_animated_image ''ui/jumping.gif'', Speak_dialog ''searching'' [(''query'', q)],
                    Log_error e, Speak_dialog ''no_answer'' []]"
    and "results (fst (handle_search E message s)) = VNone"
  using assms
  by (simp_all add: handle_search_def ask_the_wiki_def act_defs)

lemma get_image_failure_escapes:
  assumes "snd (get_image E (wiki s) q VNone) = Inl e"
  shows "snd (ask_the_wiki E q s) = Inl e"
  using assms
  by (simp add: ask_the_wiki_def act_defs Let_def split: sum.splits prod.splits)

lemma tell_more_without_results:
  assumes "results s = VNone"
  shows "snd (handle_tell_more E m s) = Inl TypeError"
  using assms by (simp add: handle_tell_more_def speak_result_def act_defs)

text \<open>
  C6 does not hold of the code. When the long answer raises, \<open>ask_the_wiki\<close> catches
  and logs the failure and \<open>handle_search\<close> speaks the "no answer" dialog, but
  \<open>results\<close> is left as \<open>None\<close>: the next "tell me more" request takes its length and
  the \<open>TypeError\<close> leaves the handler.
\<close>

theorem C6_upstream_failure_escapes:
  "base_long_answer flaky_env (VStr ''who is Isaac Newton'') (self_lang demo_skill)
     = Inl (Upstream ''timeout'')
   \<and> snd (handle_search flaky_env (VDict [(''query'', VStr ''who is Isaac Newton'')]) demo_skill)
     = Inr ()
   \<and> out (fst (handle_search flaky_env (VDict [(''query'', VStr ''who is Isaac Newton'')]) demo_skill))
     = [Show_animated_image ''ui/jumping.gif'',
        Speak_dialog ''searching'' [(''query'', VStr ''who is Isaac Newton'')],
        Log_error (Upstream ''timeout''),
        Speak_dialog ''no_answer'' []]
   \<and> results (fst (handle_search flaky_env (VDict [(''query'', VStr ''who is Isaac Newton'')]) demo_skill))
     = VNone
   \<and> snd (handle_tell_more flaky_env VNone
           (fst (handle_search flaky_env (VDict [(''query'', VStr ''who is Isaac Newton'')]) demo_skill)))
     = Inl TypeError"
  by (simp add: handle_search_def handle_tell_more_def ask_the_wiki_def
      speak_result_def act_defs get_image_def extract_and_search_def extract_keyword_def
      request_lang_def flaky_env_def demo_env_def demo_skill_def demo_solver_def
      newton_page_def py_or_def list_index_def Let_def)

end
